theory Spec2Isabelle
  imports Main "HOL-Library.Sublist" "HOL-Library.AList"
begin

section \<open>Smart file organizer: a shallow embedding of \<^verbatim>\<open>main.py\<close>\<close>

text \<open>
  The organizer scans a source folder, classifies every file by extension and by month or
  by a filename heuristic, detects repeated content through a persistent index from SHA-256
  digests to paths, and moves each file below the destination folder.

  Modelling decisions, all of them about the interpreter and the operating system rather
  than about the program:
  \<^item> A path is the list of the parts of an absolute, normalised POSIX path, as
    \<^verbatim>\<open>Path.resolve()\<close> returns it: \<^verbatim>\<open>main\<close> resolves the source and the destination,
    \<^verbatim>\<open>rglob\<close> yields children of the resolved source, and every index entry the program
    writes is \<^verbatim>\<open>str\<close> of such a path. There are no symbolic links and names are compared
    case-sensitively, so \<^verbatim>\<open>resolve\<close> is the identity. A path string is read with the
    working directory at the root.
  \<^item> Strings are byte strings; \<^verbatim>\<open>str.lower\<close> lowers the ASCII letters.
  \<^item> The file system is an association list from paths to nodes. Its order stands for the
    order in which the operating system lists entries, which Python leaves unspecified.
  \<^item> The library functions whose results the program only passes on (SHA-256, UTF-8
    decoding, the JSON parser and printer, \<^verbatim>\<open>strftime\<close>, the clock) are parameters,
    collected in the record \<open>lib\<close>.
\<close>

subsection \<open>Strings and paths\<close>

type_synonym path = "string list"

definition lower_char :: "char \<Rightarrow> char" where
  "lower_char c =
     (case map_of (zip ''ABCDEFGHIJKLMNOPQRSTUVWXYZ'' ''abcdefghijklmnopqrstuvwxyz'') c of
        Some d \<Rightarrow> d
      | None \<Rightarrow> c)"

definition lower :: "string \<Rightarrow> string" where
  "lower s = map lower_char s"

text \<open>\<^verbatim>\<open>a in b\<close> on strings is the contiguous-substring test; \<^verbatim>\<open>b.startswith(a)\<close> is \<open>prefix a b\<close>.\<close>

definition contains :: "string \<Rightarrow> string \<Rightarrow> bool" where
  "contains b a = sublist a b"

definition startswith :: "string \<Rightarrow> string \<Rightarrow> bool" where
  "startswith b a = prefix a b"

text \<open>\<^verbatim>\<open>path.name\<close> and \<^verbatim>\<open>path.parent\<close>; the root is its own parent and has the empty name.\<close>

definition name :: "path \<Rightarrow> string" where
  "name p = (if p = [] then [] else last p)"

definition parent :: "path \<Rightarrow> path" where
  "parent p = butlast p"

text \<open>
  \<^verbatim>\<open>name.rfind('.')\<close>: the index of the last dot, if there is one.
\<close>

fun rfind_dot :: "string \<Rightarrow> nat option" where
  "rfind_dot [] = None"
| "rfind_dot (c # cs) =
     (case rfind_dot cs of
        Some i \<Rightarrow> Some (Suc i)
      | None \<Rightarrow> if c = CHR ''.'' then Some 0 else None)"

text \<open>
  \<^verbatim>\<open>path.suffix\<close> and \<^verbatim>\<open>path.stem\<close> as pathlib (Python 3.12) computes them: with \<open>i\<close> the index of the
  last dot of the name, the suffix is \<^verbatim>\<open>name[i:]\<close> when \<^verbatim>\<open>0 < i < len(name) - 1\<close> and
  empty otherwise; the stem is the rest.
\<close>

definition has_suffix :: "string \<Rightarrow> nat \<Rightarrow> bool" where
  "has_suffix n i \<longleftrightarrow> 0 < i \<and> Suc i < length n"

definition suffix_of_name :: "string \<Rightarrow> string" where
  "suffix_of_name n =
     (case rfind_dot n of
        Some i \<Rightarrow> if has_suffix n i then drop i n else []
      | None \<Rightarrow> [])"

definition stem_of_name :: "string \<Rightarrow> string" where
  "stem_of_name n =
     (case rfind_dot n of
        Some i \<Rightarrow> if has_suffix n i then take i n else n
      | None \<Rightarrow> n)"

definition suffix :: "path \<Rightarrow> string" where
  "suffix p = suffix_of_name (name p)"

definition stem :: "path \<Rightarrow> string" where
  "stem p = stem_of_name (name p)"

text \<open>\<^verbatim>\<open>str(path)\<close> and \<^verbatim>\<open>Path(string)\<close>; pathlib drops empty parts and single dots.\<close>

definition str_of_path :: "path \<Rightarrow> string" where
  "str_of_path p = (if p = [] then ''/'' else concat (map (\<lambda>s. CHR ''/'' # s) p))"

fun split_slash :: "string \<Rightarrow> string list" where
  "split_slash [] = [[]]"
| "split_slash (c # cs) =
     (if c = CHR ''/'' then [] # split_slash cs
      else (case split_slash cs of
              [] \<Rightarrow> [[c]]
            | w # ws \<Rightarrow> (c # w) # ws))"

definition Path :: "string \<Rightarrow> path" where
  "Path s = filter (\<lambda>w. w \<noteq> [] \<and> w \<noteq> ''.'') (split_slash s)"

definition resolve :: "path \<Rightarrow> path" where
  "resolve p = p"

subsection \<open>Classifier\<close>

definition EXTENSION_MAP :: "(string \<times> string list) list" where
  "EXTENSION_MAP =
    [(''images'', [''.jpg'', ''.jpeg'', ''.png'', ''.gif'', ''.bmp'', ''.webp'', ''.svg'', ''.heic'']),
     (''videos'', [''.mp4'', ''.mov'', ''.avi'', ''.mkv'', ''.webm'', ''.wmv'']),
     (''audio'', [''.mp3'', ''.wav'', ''.flac'', ''.aac'', ''.ogg'', ''.m4a'']),
     (''documents'', [''.pdf'', ''.txt'', ''.rtf'', ''.md'']),
     (''spreadsheets'', [''.csv'', ''.xls'', ''.xlsx'', ''.ods'']),
     (''presentations'', [''.ppt'', ''.pptx'', ''.key'', ''.odp'']),
     (''archives'', [''.zip'', ''.rar'', ''.7z'', ''.tar'', ''.gz'', ''.bz2'']),
     (''code'', [''.py'', ''.js'', ''.ts'', ''.jsx'', ''.tsx'', ''.html'', ''.css'', ''.java'',
                 ''.c'', ''.cpp'', ''.go'', ''.rs'', ''.php'', ''.json'', ''.yaml'', ''.yml'',
                 ''.sql'']),
     (''executables'', [''.exe'', ''.msi'', ''.bat'', ''.cmd'', ''.ps1''])]"

definition IGNORED_DIRS :: "string list" where
  "IGNORED_DIRS = [''$recycle.bin'', ''system volume information'', ''.git'', ''__pycache__'']"

definition INDEX_FILENAME :: string where
  "INDEX_FILENAME = ''.organizer_index.json''"

fun classify_in :: "(string \<times> string list) list \<Rightarrow> string \<Rightarrow> string" where
  "classify_in [] ext = ''other''"
| "classify_in ((category, exts) # rest) ext =
     (if ext \<in> set exts then category else classify_in rest ext)"

definition classify_file :: "path \<Rightarrow> string" where
  "classify_file p = classify_in EXTENSION_MAP (lower (suffix p))"

definition source_bucket :: "path \<Rightarrow> string" where
  "source_bucket p =
    (let name = lower (name p);
         parent = lower (str_of_path (parent p));
         ext = lower (suffix p)
     in
       if contains name ''whatsapp'' \<or> contains parent ''whatsapp'' then ''whatsapp''
       else if contains name ''telegram'' \<or> contains parent ''telegram'' then ''telegram''
       else if contains name ''discord'' \<or> contains parent ''discord'' then ''discord''
       else if contains name ''slack'' \<or> contains parent ''slack'' then ''slack''
       else if startswith name ''screenshot'' \<or> contains name ''screen shot''
               \<or> startswith name ''snip'' then ''screenshots''
       else if startswith name ''img_'' \<or> startswith name ''dsc_''
               \<or> startswith name ''pxl_'' then ''camera_exports''
       else if contains name ''chrome'' \<or> contains name ''edge''
               \<or> contains name ''firefox'' then ''browser_downloads''
       else if ext \<in> set [''.crdownload'', ''.part''] then ''browser_partial_downloads''
       else if contains name ''zoom'' \<or> contains name ''meeting''
               \<or> contains name ''teams'' then ''meetings''
       else if ext \<in> set [''.torrent''] then ''torrent''
       else ''manual_or_unknown'')"

subsection \<open>Exceptions\<close>

text \<open>
  The exceptions the interpreter and its library raise in the code modelled here.
  \<open>is_OSError\<close> tells which of them a handler for \<^verbatim>\<open>OSError\<close> catches;
  \<^verbatim>\<open>UnicodeDecodeError\<close>, \<^verbatim>\<open>UnicodeEncodeError\<close> and \<^verbatim>\<open>json.JSONDecodeError\<close> are
  subclasses of \<^verbatim>\<open>ValueError\<close>, none of them of \<^verbatim>\<open>OSError\<close>; \<open>ValueError\<close> below
  stands for a \<^verbatim>\<open>ValueError\<close> of no such subclass.
\<close>

datatype error =
    FileNotFoundError
  | IsADirectoryError
  | NotADirectoryError
  | FileExistsError
  | PermissionError
  | ShutilError
  | UnicodeDecodeError
  | AttributeError
  | TypeError
  | OverflowError
  | JSONDecodeError
  | ValueError
  | RecursionError
  | UnicodeEncodeError

fun is_OSError :: "error \<Rightarrow> bool" where
  "is_OSError FileNotFoundError = True"
| "is_OSError IsADirectoryError = True"
| "is_OSError NotADirectoryError = True"
| "is_OSError FileExistsError = True"
| "is_OSError PermissionError = True"
| "is_OSError ShutilError = True"
| "is_OSError UnicodeDecodeError = False"
| "is_OSError AttributeError = False"
| "is_OSError TypeError = False"
| "is_OSError OverflowError = False"
| "is_OSError JSONDecodeError = False"
| "is_OSError ValueError = False"
| "is_OSError RecursionError = False"
| "is_OSError UnicodeEncodeError = False"

subsection \<open>JSON values and the library\<close>

text \<open>
  What \<^verbatim>\<open>json.loads\<close> returns. A number that is not an integer behaves in this program
  like \<open>JNum 0\<close> (if it is zero) or \<open>JNum 1\<close>: the program only asks whether an index
  entry is truthy and whether it is a string.
\<close>

datatype json =
    JNull
  | JBool bool
  | JNum int
  | JStr string
  | JArr "json list"
  | JObj "(string \<times> json) list"

text \<open>The lines the program prints.\<close>

datatype line =
    MOVED path string
  | DUPLICATE path string
  | ERROR path error
  | CYCLE nat nat
  | WATCHING path int
  | DONE nat nat bool

text \<open>
  The library and the environment of a run. \<^verbatim>\<open>json.loads\<close> returns a value or raises:
  \<^verbatim>\<open>json.JSONDecodeError\<close> for a text that is not JSON, and also \<^verbatim>\<open>ValueError\<close> (an
  integer literal longer than the interpreter's limit of digits) and
  \<^verbatim>\<open>RecursionError\<close> (nesting too deep). \<open>print_raises\<close> is the exception, if any, that
  \<^verbatim>\<open>print\<close> raises for a line: \<^verbatim>\<open>UnicodeEncodeError\<close> when the standard output cannot
  encode a file name in it.
\<close>

record lib =
  sha256_hex :: "string \<Rightarrow> string"
  utf8_decode :: "string \<Rightarrow> string option"
  json_loads :: "string \<Rightarrow> error + json"
  json_dumps :: "json \<Rightarrow> string"
  strftime_ym :: "int \<Rightarrow> string option"
  now :: int
  print_raises :: "line \<Rightarrow> error option"

text \<open>Python's truth value of a JSON value.\<close>

fun truthy :: "json \<Rightarrow> bool" where
  "truthy JNull = False"
| "truthy (JBool b) = b"
| "truthy (JNum n) = (n \<noteq> 0)"
| "truthy (JStr s) = (s \<noteq> [])"
| "truthy (JArr xs) = (xs \<noteq> [])"
| "truthy (JObj kvs) = (kvs \<noteq> [])"

text \<open>
  \<^verbatim>\<open>index.get(digest)\<close> and \<^verbatim>\<open>index[digest] = value\<close>. Only a dict has \<^verbatim>\<open>get\<close>; a list
  takes integer subscripts only and the other values take none.
\<close>

fun index_get :: "json \<Rightarrow> string \<Rightarrow> error + json option" where
  "index_get (JObj kvs) k = Inr (map_of kvs k)"
| "index_get _ k = Inl AttributeError"

fun index_set :: "json \<Rightarrow> string \<Rightarrow> string \<Rightarrow> error + json" where
  "index_set (JObj kvs) k v = Inr (JObj (AList.update k (JStr v) kvs))"
| "index_set _ k v = Inl TypeError"

subsection \<open>The file system\<close>

text \<open>
  A regular file has its bytes, its modification time and whether it may be read. The
  timestamps of directories are not modelled (the program reads none). The root is a
  directory that is always there.
\<close>

datatype node = File (content: string) (mtime: int) (readable: bool) | Dir

type_synonym filesystem = "(path \<times> node) list"

definition node_at :: "filesystem \<Rightarrow> path \<Rightarrow> node option" where
  "node_at fs p = (if p = [] then Some Dir else map_of fs p)"

definition exists :: "filesystem \<Rightarrow> path \<Rightarrow> bool" where
  "exists fs p \<longleftrightarrow> node_at fs p \<noteq> None"

definition is_dir :: "filesystem \<Rightarrow> path \<Rightarrow> bool" where
  "is_dir fs p \<longleftrightarrow> node_at fs p = Some Dir"

definition is_file :: "filesystem \<Rightarrow> path \<Rightarrow> bool" where
  "is_file fs p \<longleftrightarrow> (case node_at fs p of Some (File c t r) \<Rightarrow> True | _ \<Rightarrow> False)"

text \<open>
  \<^verbatim>\<open>path.mkdir(parents=True, exist_ok=True)\<close>: the missing directories are created from the
  top; a regular file in the way raises and nothing is created.
\<close>

fun mkdirs :: "filesystem \<Rightarrow> path \<Rightarrow> string list \<Rightarrow> error + filesystem" where
  "mkdirs fs cur [] = Inr fs"
| "mkdirs fs cur (s # ss) =
     (case node_at fs (cur @ [s]) of
        Some Dir \<Rightarrow> mkdirs fs (cur @ [s]) ss
      | Some (File c t r) \<Rightarrow> Inl (if ss = [] then FileExistsError else NotADirectoryError)
      | None \<Rightarrow> mkdirs (AList.update (cur @ [s]) Dir fs) (cur @ [s]) ss)"

definition mkdir_parents :: "filesystem \<Rightarrow> path \<Rightarrow> error + filesystem" where
  "mkdir_parents fs p = mkdirs fs [] p"

text \<open>\<^verbatim>\<open>path.read_text(encoding="utf-8")\<close>.\<close>

definition read_text :: "lib \<Rightarrow> filesystem \<Rightarrow> path \<Rightarrow> error + string" where
  "read_text L fs p =
     (case node_at fs p of
        None \<Rightarrow> Inl FileNotFoundError
      | Some Dir \<Rightarrow> Inl IsADirectoryError
      | Some (File c t r) \<Rightarrow>
          if \<not> r then Inl PermissionError
          else (case utf8_decode L c of
                  None \<Rightarrow> Inl UnicodeDecodeError
                | Some txt \<Rightarrow> Inr txt))"

text \<open>
  \<^verbatim>\<open>path.write_text(data, encoding="utf-8")\<close>: creates or replaces a regular file in an
  existing directory. \<open>data\<close> is the encoded text.
\<close>

definition write_text :: "lib \<Rightarrow> filesystem \<Rightarrow> path \<Rightarrow> string \<Rightarrow> error + filesystem" where
  "write_text L fs p data =
     (case node_at fs p of
        Some Dir \<Rightarrow> Inl IsADirectoryError
      | Some (File c t r) \<Rightarrow> Inr (AList.update p (File data (now L) r) fs)
      | None \<Rightarrow>
          if is_dir fs (parent p) then Inr (AList.update p (File data (now L) True) fs)
          else if exists fs (parent p) then Inl NotADirectoryError
          else Inl FileNotFoundError)"

text \<open>\<^verbatim>\<open>directory.rmdir()\<close>: removes an empty directory, and raises otherwise.\<close>

definition has_children :: "filesystem \<Rightarrow> path \<Rightarrow> bool" where
  "has_children fs p \<longleftrightarrow> (\<exists>q \<in> set (map fst fs). q \<noteq> [] \<and> parent q = p)"

definition rmdir :: "filesystem \<Rightarrow> path \<Rightarrow> error + filesystem" where
  "rmdir fs p =
     (case node_at fs p of
        None \<Rightarrow> Inl FileNotFoundError
      | Some (File c t r) \<Rightarrow> Inl NotADirectoryError
      | Some Dir \<Rightarrow>
          if p = [] then Inl PermissionError
          else if has_children fs p then Inl FileExistsError
          else Inr (AList.delete p fs))"

text \<open>
  \<^verbatim>\<open>shutil.move(src, dst)\<close>, which returns the path the source now has. A destination that
  is a directory receives the source inside it; otherwise the source is renamed to the
  destination, replacing a regular file there. A directory moves with all below it.
\<close>

definition rename_tree :: "filesystem \<Rightarrow> path \<Rightarrow> path \<Rightarrow> filesystem" where
  "rename_tree fs src dst =
     map (\<lambda>(p, n). if prefix src p then (dst @ drop (length src) p, n) else (p, n))
       (AList.delete dst fs)"

definition shutil_move :: "filesystem \<Rightarrow> path \<Rightarrow> path \<Rightarrow> (error + path) \<times> filesystem" where
  "shutil_move fs src dst =
     (case node_at fs src of
        None \<Rightarrow> (Inl FileNotFoundError, fs)
      | Some n \<Rightarrow>
          let real_dst = (if is_dir fs dst then dst @ [name src] else dst) in
          if is_dir fs dst \<and> exists fs real_dst then (Inl ShutilError, fs)
          else if \<not> is_dir fs (parent real_dst) then (Inl FileNotFoundError, fs)
          else (case n of
                  File c t r \<Rightarrow> (Inr real_dst, AList.update real_dst n (AList.delete src fs))
                | Dir \<Rightarrow>
                    if src = [] \<or> prefix src real_dst then (Inl ShutilError, fs)
                    else (Inr real_dst, rename_tree fs src real_dst)))"

subsection \<open>Hasher and month bucket\<close>

text \<open>\<^verbatim>\<open>sha256sum\<close> opens the file for reading and hashes all of it.\<close>

definition sha256sum :: "lib \<Rightarrow> filesystem \<Rightarrow> path \<Rightarrow> error + string" where
  "sha256sum L fs p =
     (case node_at fs p of
        None \<Rightarrow> Inl FileNotFoundError
      | Some Dir \<Rightarrow> Inl IsADirectoryError
      | Some (File c t r) \<Rightarrow> if r then Inr (sha256_hex L c) else Inl PermissionError)"

text \<open>
  \<^verbatim>\<open>month_bucket\<close> formats the modification time as year and month. For a directory,
  whose timestamp is not modelled, it gives the exception that \<^verbatim>\<open>sha256sum\<close> raises next
  in \<^verbatim>\<open>organize_file\<close>.
\<close>

definition month_bucket :: "lib \<Rightarrow> filesystem \<Rightarrow> path \<Rightarrow> error + string" where
  "month_bucket L fs p =
     (case node_at fs p of
        None \<Rightarrow> Inl FileNotFoundError
      | Some Dir \<Rightarrow> Inl IsADirectoryError
      | Some (File c t r) \<Rightarrow>
          (case strftime_ym L t of
             None \<Rightarrow> Inl OverflowError
           | Some b \<Rightarrow> Inr b))"

subsection \<open>Placer\<close>

text \<open>\<^verbatim>\<open>str(i)\<close> for a natural number: its decimal digits.\<close>

definition digit_char :: "nat \<Rightarrow> char" where
  "digit_char d = ''0123456789'' ! d"

function str_nat :: "nat \<Rightarrow> string" where
  "str_nat n = (if n < 10 then [digit_char n] else str_nat (n div 10) @ [digit_char (n mod 10)])"
  by pat_completeness auto
termination
  by (relation "measure id") auto

declare str_nat.simps [simp del]

text \<open>The name \<^verbatim>\<open>f"{stem} ({i}){suffix}"\<close> in the directory \<^verbatim>\<open>parent\<close>.\<close>

definition numbered :: "path \<Rightarrow> string \<Rightarrow> string \<Rightarrow> nat \<Rightarrow> path" where
  "numbered par st suf i = par @ [st @ '' ('' @ str_nat i @ '')'' @ suf]"

text \<open>Different numbers give different names, so the search below ends.\<close>

lemma digit_char_inj: "a < 10 \<Longrightarrow> b < 10 \<Longrightarrow> digit_char a = digit_char b \<Longrightarrow> a = b"
proof -
  assume a: "a < 10" and b: "b < 10" and e: "digit_char a = digit_char b"
  have d: "distinct ''0123456789''" by simp
  have l: "length ''0123456789'' = 10" by simp
  from e have "''0123456789'' ! a = ''0123456789'' ! b" by (simp only: digit_char_def)
  with d a b l show "a = b" by (simp only: nth_eq_iff_index_eq)
qed

lemma str_nat_not_Nil: "str_nat n \<noteq> []"
  by (subst str_nat.simps) simp

lemma str_nat_inj: "str_nat n = str_nat m \<Longrightarrow> n = m"
proof (induction n arbitrary: m rule: str_nat.induct)
  case (1 n)
  show ?case
  proof (cases "n < 10")
    case True
    show ?thesis
    proof (cases "m < 10")
      case m: True
      from "1.prems" True m have "digit_char n = digit_char m"
        by (simp add: str_nat.simps [of n] str_nat.simps [of m])
      with True m show ?thesis by (rule digit_char_inj)
    next
      case m: False
      from "1.prems" True m have "str_nat (m div 10) = []"
        by (simp add: str_nat.simps [of n] str_nat.simps [of m])
      then show ?thesis by (simp add: str_nat_not_Nil)
    qed
  next
    case False
    show ?thesis
    proof (cases "m < 10")
      case m: True
      from "1.prems" False m have "str_nat (n div 10) = []"
        by (simp add: str_nat.simps [of n] str_nat.simps [of m])
      then show ?thesis by (simp add: str_nat_not_Nil)
    next
      case m: False
      from "1.prems" False m
      have e: "str_nat (n div 10) = str_nat (m div 10)"
        and d: "digit_char (n mod 10) = digit_char (m mod 10)"
        by (simp_all add: str_nat.simps [of n] str_nat.simps [of m])
      from "1.IH" [OF False e] have q: "n div 10 = m div 10" .
      have "n mod 10 = m mod 10" using d by (intro digit_char_inj) simp_all
      with q show ?thesis by (metis div_mult_mod_eq)
    qed
  qed
qed

lemma numbered_inj: "numbered par st suf i = numbered par st suf j \<Longrightarrow> i = j"
  by (simp add: numbered_def str_nat_inj)

lemma finite_numbered_exists: "finite {j. exists fs (numbered par st suf j)}"
proof -
  have "{j. exists fs (numbered par st suf j)}
        \<subseteq> (\<lambda>j. numbered par st suf j) -` (insert [] (set (map fst fs)))"
    by (force simp: exists_def node_at_def split: if_splits dest!: map_of_SomeD)
  moreover have "finite ((\<lambda>j. numbered par st suf j) -` (insert [] (set (map fst fs))))"
    by (rule finite_vimageI) (auto intro: injI dest: numbered_inj)
  ultimately show ?thesis by (rule finite_subset)
qed

text \<open>
  The loop of \<^verbatim>\<open>safe_name\<close>. It ends because the numbered names are pairwise different
  and the file system holds finitely many entries.
\<close>

function safe_name_loop :: "filesystem \<Rightarrow> path \<Rightarrow> string \<Rightarrow> string \<Rightarrow> nat \<Rightarrow> path" where
  "safe_name_loop fs par st suf i =
     (let candidate = numbered par st suf i in
      if \<not> exists fs candidate then candidate
      else safe_name_loop fs par st suf (i + 1))"
  by pat_completeness auto
termination
proof (relation "measure (\<lambda>(fs, par, st, suf, i). card {j. i \<le> j \<and> exists fs (numbered par st suf j)})")
  show "wf (measure (\<lambda>(fs, par, st, suf, i). card {j. i \<le> j \<and> exists fs (numbered par st suf j)}))"
    by simp
next
  fix fs :: filesystem and par st suf i x
  assume x: "x = numbered par st suf i" and ex: "\<not> \<not> exists fs x"
  let ?A = "{j. i + 1 \<le> j \<and> exists fs (numbered par st suf j)}"
  let ?B = "{j. i \<le> j \<and> exists fs (numbered par st suf j)}"
  have fin: "finite ?B"
    by (rule finite_subset [OF _ finite_numbered_exists [of fs par st suf]]) auto
  have "i \<in> ?B" "i \<notin> ?A" using x ex by auto
  moreover have "?A \<subseteq> ?B" by auto
  ultimately have "?A \<subset> ?B" by blast
  with fin have "card ?A < card ?B" by (rule psubset_card_mono)
  then show "((fs, par, st, suf, i + 1), (fs, par, st, suf, i))
         \<in> measure (\<lambda>(fs, par, st, suf, i). card {j. i \<le> j \<and> exists fs (numbered par st suf j)})"
    by simp
qed

declare safe_name_loop.simps [simp del]

definition safe_name :: "filesystem \<Rightarrow> path \<Rightarrow> path" where
  "safe_name fs target =
     (if \<not> exists fs target then target
      else safe_name_loop fs (parent target) (stem target) (suffix target) 1)"


text \<open>
  \<^verbatim>\<open>move_file\<close>: the target is made free of collisions first; a dry run returns it
  and touches nothing.
\<close>

definition move_file :: "filesystem \<Rightarrow> path \<Rightarrow> path \<Rightarrow> bool \<Rightarrow> (error + path) \<times> filesystem" where
  "move_file fs src dst dry =
     (let dst = safe_name fs dst in
      if dry then (Inr dst, fs)
      else (case mkdir_parents fs (parent dst) of
              Inl e \<Rightarrow> (Inl e, fs)
            | Inr fs1 \<Rightarrow> shutil_move fs1 src dst))"

subsection \<open>Index\<close>

text \<open>
  \<^verbatim>\<open>load_index\<close> reads and parses inside one \<^verbatim>\<open>try\<close> whose handler catches
  \<^verbatim>\<open>json.JSONDecodeError\<close> and \<^verbatim>\<open>OSError\<close>; any other exception of the two calls leaves
  it. It returns whatever JSON value the file holds.
\<close>

definition caught_by_load_index :: "error \<Rightarrow> bool" where
  "caught_by_load_index e \<longleftrightarrow> e = JSONDecodeError \<or> is_OSError e"

definition load_index :: "lib \<Rightarrow> filesystem \<Rightarrow> path \<Rightarrow> error + json" where
  "load_index L fs index_path =
     (if \<not> exists fs index_path then Inr (JObj [])
      else (case read_text L fs index_path of
              Inl e \<Rightarrow> if caught_by_load_index e then Inr (JObj []) else Inl e
            | Inr txt \<Rightarrow>
                (case json_loads L txt of
                   Inl e \<Rightarrow> if caught_by_load_index e then Inr (JObj []) else Inl e
                 | Inr v \<Rightarrow> Inr v)))"

definition save_index :: "lib \<Rightarrow> filesystem \<Rightarrow> path \<Rightarrow> json \<Rightarrow> bool \<Rightarrow> error + filesystem" where
  "save_index L fs index_path index dry =
     (if dry then Inr fs
      else write_text L fs index_path (json_dumps L index))"

subsection \<open>Scanner\<close>

record config =
  source :: path
  destination :: path
  dry_run :: bool
  recursive :: bool
  keep_empty :: bool
  sort_mode :: string

text \<open>\<^verbatim>\<open>path.parts\<close> of an absolute path starts with the root.\<close>

definition parts :: "path \<Rightarrow> string list" where
  "parts p = ''/'' # p"

definition should_ignore :: "filesystem \<Rightarrow> path \<Rightarrow> path \<Rightarrow> bool" where
  "should_ignore fs p dest =
     (if \<not> is_file fs p then True
      else if \<exists>part \<in> set (parts p). lower part \<in> set IGNORED_DIRS then True
      else if name p = INDEX_FILENAME then True
      else prefix (resolve dest) (resolve p))"

text \<open>
  \<^verbatim>\<open>source.rglob("*")\<close> yields everything below the source, \<^verbatim>\<open>source.glob("*")\<close> its
  children.
\<close>

definition glob_star :: "filesystem \<Rightarrow> path \<Rightarrow> bool \<Rightarrow> path list" where
  "glob_star fs root rec =
     filter (\<lambda>p. if rec then strict_prefix root p else p \<noteq> [] \<and> parent p = root) (map fst fs)"

definition list_candidate_files :: "filesystem \<Rightarrow> path \<Rightarrow> path \<Rightarrow> bool \<Rightarrow> path list" where
  "list_candidate_files fs src dest rec =
     filter (\<lambda>p. \<not> should_ignore fs p dest) (glob_star fs src rec)"

subsection \<open>Deduplicator\<close>

text \<open>
  \<^verbatim>\<open>Path(known_path_str) if known_path_str else None\<close>: a missing or falsy entry gives
  no known path, and \<^verbatim>\<open>Path\<close> takes a string only.
\<close>

definition known_path_of :: "json option \<Rightarrow> error + path option" where
  "known_path_of known_path_str =
     (case known_path_str of
        None \<Rightarrow> Inr None
      | Some v \<Rightarrow>
          if truthy v then (case v of JStr s \<Rightarrow> Inr (Some (Path s)) | _ \<Rightarrow> Inl TypeError)
          else Inr None)"

definition is_known_duplicate :: "filesystem \<Rightarrow> path option \<Rightarrow> path \<Rightarrow> bool" where
  "is_known_duplicate fs known_path p =
     (case known_path of
        None \<Rightarrow> False
      | Some kp \<Rightarrow> exists fs kp \<and> resolve kp \<noteq> resolve p)"

definition organize_file ::
  "lib \<Rightarrow> path \<Rightarrow> config \<Rightarrow> filesystem \<Rightarrow> json \<Rightarrow> (error + string \<times> string) \<times> filesystem \<times> json" where
  "organize_file L p config fs index =
     (let category = classify_file p in
      case (if sort_mode config = ''source'' then Inr (source_bucket p) else month_bucket L fs p) of
        Inl e \<Rightarrow> (Inl e, fs, index)
      | Inr bucket \<Rightarrow>
          let base_target = destination config @ [category, bucket, name p] in
          (case sha256sum L fs p of
             Inl e \<Rightarrow> (Inl e, fs, index)
           | Inr digest \<Rightarrow>
               (case index_get index digest of
                  Inl e \<Rightarrow> (Inl e, fs, index)
                | Inr known_path_str \<Rightarrow>
                    (case known_path_of known_path_str of
                       Inl e \<Rightarrow> (Inl e, fs, index)
                     | Inr known_path \<Rightarrow>
                         if is_known_duplicate fs known_path p then
                           let duplicate_target = destination config @ [''duplicates'', bucket, name p] in
                           (case move_file fs p duplicate_target (dry_run config) of
                              (Inl e, fs') \<Rightarrow> (Inl e, fs', index)
                            | (Inr final_path, fs') \<Rightarrow>
                                (Inr (''duplicate'', str_of_path final_path), fs', index))
                         else
                           (case move_file fs p base_target (dry_run config) of
                              (Inl e, fs') \<Rightarrow> (Inl e, fs', index)
                            | (Inr final_path, fs') \<Rightarrow>
                                (case index_set index digest (str_of_path final_path) of
                                   Inl e \<Rightarrow> (Inl e, fs', index)
                                 | Inr index' \<Rightarrow>
                                     (Inr (''moved'', str_of_path final_path), fs', index')))))))"

subsection \<open>Pruner\<close>

text \<open>
  The directories below the root, deepest first (Python's sort is stable, also when
  reversed); a directory that cannot be removed is skipped.
\<close>

definition rmdir_or_skip :: "path \<Rightarrow> filesystem \<Rightarrow> filesystem" where
  "rmdir_or_skip d fs = (case rmdir fs d of Inl e \<Rightarrow> fs | Inr fs' \<Rightarrow> fs')"

definition prune_empty_dirs :: "filesystem \<Rightarrow> path \<Rightarrow> bool \<Rightarrow> filesystem" where
  "prune_empty_dirs fs root keep =
     (if keep then fs
      else fold rmdir_or_skip
             (sort_key (\<lambda>p. - int (length (parts p)))
                (filter (\<lambda>p. is_dir fs p) (glob_star fs root True)))
             fs)"

subsection \<open>Pass orchestrator and watch loop\<close>

text \<open>
  \<^verbatim>\<open>print\<close>: the line is added to the output, or the exception is raised and nothing is
  added.
\<close>

definition print :: "lib \<Rightarrow> line \<Rightarrow> line list \<Rightarrow> error + line list" where
  "print L l out = (case print_raises L l of None \<Rightarrow> Inr (out @ [l]) | Some e \<Rightarrow> Inl e)"

text \<open>
  The state of the loop over the candidates: the file system, the index, the two counters
  and the output so far.
\<close>

type_synonym pass_state = "filesystem \<times> json \<times> nat \<times> nat \<times> line list"

text \<open>
  The handler of the loop body: it prints the error line. An exception of this
  \<^verbatim>\<open>print\<close> is caught by nothing and leaves the loop.
\<close>

definition handle_exception :: "lib \<Rightarrow> path \<Rightarrow> error \<Rightarrow> pass_state \<Rightarrow> error option \<times> pass_state" where
  "handle_exception L file_path exc st =
     (case st of (fs, index, moved, duplicates, out) \<Rightarrow>
        (case print L (ERROR file_path exc) out of
           Inl e \<Rightarrow> (Some e, st)
         | Inr out' \<Rightarrow> (None, (fs, index, moved, duplicates, out'))))"

text \<open>
  One round of the loop. The counter is incremented before the line is printed, and both
  happen inside the \<^verbatim>\<open>try\<close>: the handler catches the exceptions of \<^verbatim>\<open>organize_file\<close>
  and of that \<^verbatim>\<open>print\<close>. The result is the exception that leaves the loop, if any, and
  the state reached.
\<close>

definition organize_one :: "lib \<Rightarrow> config \<Rightarrow> path \<Rightarrow> pass_state \<Rightarrow> error option \<times> pass_state" where
  "organize_one L config file_path st =
     (case st of (fs, index, moved, duplicates, out) \<Rightarrow>
        (case organize_file L file_path config fs index of
           (Inl exc, fs', index') \<Rightarrow>
             handle_exception L file_path exc (fs', index', moved, duplicates, out)
         | (Inr (status, target), fs', index') \<Rightarrow>
             if status = ''duplicate'' then
               (case print L (DUPLICATE file_path target) out of
                  Inl exc \<Rightarrow>
                    handle_exception L file_path exc (fs', index', moved, duplicates + 1, out)
                | Inr out' \<Rightarrow> (None, (fs', index', moved, duplicates + 1, out')))
             else
               (case print L (MOVED file_path target) out of
                  Inl exc \<Rightarrow>
                    handle_exception L file_path exc (fs', index', moved + 1, duplicates, out)
                | Inr out' \<Rightarrow> (None, (fs', index', moved + 1, duplicates, out')))))"

fun organize_files :: "lib \<Rightarrow> config \<Rightarrow> path list \<Rightarrow> pass_state \<Rightarrow> error option \<times> pass_state" where
  "organize_files L config [] st = (None, st)"
| "organize_files L config (file_path # files) st =
     (case organize_one L config file_path st of
        (Some e, st') \<Rightarrow> (Some e, st')
      | (None, st') \<Rightarrow> organize_files L config files st')"

text \<open>
  \<^verbatim>\<open>organize_pass\<close>. An exception that leaves the loop leaves the pass: the index is not
  saved and the source is not pruned.
\<close>

definition organize_pass ::
  "lib \<Rightarrow> config \<Rightarrow> filesystem \<Rightarrow> (error + nat \<times> nat) \<times> filesystem \<times> line list" where
  "organize_pass L config fs =
     (case mkdir_parents fs (destination config) of
        Inl e \<Rightarrow> (Inl e, fs, [])
      | Inr fs0 \<Rightarrow>
          let index_path = destination config @ [INDEX_FILENAME] in
          (case load_index L fs0 index_path of
             Inl e \<Rightarrow> (Inl e, fs0, [])
           | Inr index \<Rightarrow>
               let files = list_candidate_files fs0 (source config) (destination config)
                             (recursive config) in
               (case organize_files L config files (fs0, index, 0, 0, []) of
                  (Some e, fs1, index1, moved, duplicates, out) \<Rightarrow> (Inl e, fs1, out)
                | (None, fs1, index1, moved, duplicates, out) \<Rightarrow>
                    (case save_index L fs1 index_path index1 (dry_run config) of
                       Inl e \<Rightarrow> (Inl e, fs1, out)
                     | Inr fs2 \<Rightarrow>
                         (Inr (moved, duplicates),
                          prune_empty_dirs fs2 (source config) (keep_empty config),
                          out)))))"

text \<open>
  How a run of the program ends: it returns, it exits with a message, an exception leaves
  it, or it is interrupted from outside.
\<close>

datatype exit = Returned | SystemExit string | Raised error | KeyboardInterrupt

text \<open>
  \<^verbatim>\<open>watch_loop\<close> runs passes until the process is interrupted; \<open>cycles\<close> is the number of
  passes completed before the interrupt, \<open>out\<close> the output so far. Sleeping changes
  nothing.
\<close>

fun watch_cycles ::
  "lib \<Rightarrow> config \<Rightarrow> nat \<Rightarrow> filesystem \<Rightarrow> line list \<Rightarrow> exit \<times> filesystem \<times> line list" where
  "watch_cycles L config 0 fs out = (KeyboardInterrupt, fs, out)"
| "watch_cycles L config (Suc n) fs out =
     (case organize_pass L config fs of
        (Inl e, fs', out1) \<Rightarrow> (Raised e, fs', out @ out1)
      | (Inr (moved, duplicates), fs', out1) \<Rightarrow>
          if moved \<noteq> 0 \<or> duplicates \<noteq> 0 then
            (case print L (CYCLE moved duplicates) (out @ out1) of
               Inl e \<Rightarrow> (Raised e, fs', out @ out1)
             | Inr out2 \<Rightarrow> watch_cycles L config n fs' out2)
          else watch_cycles L config n fs' (out @ out1))"

definition watch_loop ::
  "lib \<Rightarrow> config \<Rightarrow> int \<Rightarrow> nat \<Rightarrow> filesystem \<Rightarrow> exit \<times> filesystem \<times> line list" where
  "watch_loop L config interval cycles fs =
     (case print L (WATCHING (source config) interval) [] of
        Inl e \<Rightarrow> (Raised e, fs, [])
      | Inr out \<Rightarrow> watch_cycles L config cycles fs out)"

subsection \<open>Entry point\<close>

record args =
  arg_source :: path
  arg_destination :: path
  arg_watch :: bool
  arg_interval :: int
  arg_dry_run :: bool
  arg_non_recursive :: bool
  arg_keep_empty :: bool
  arg_sort_mode :: string

definition config_of_args :: "args \<Rightarrow> config" where
  "config_of_args a =
     \<lparr>source = resolve (arg_source a),
      destination = resolve (arg_destination a),
      dry_run = arg_dry_run a,
      recursive = (\<not> arg_non_recursive a),
      keep_empty = arg_keep_empty a,
      sort_mode = arg_sort_mode a\<rparr>"

definition main :: "lib \<Rightarrow> args \<Rightarrow> nat \<Rightarrow> filesystem \<Rightarrow> exit \<times> filesystem \<times> line list" where
  "main L a cycles fs =
     (let config = config_of_args a in
      if \<not> exists fs (source config) \<or> \<not> is_dir fs (source config) then
        (SystemExit (''Source folder does not exist or is not a directory: ''
                      @ str_of_path (source config)), fs, [])
      else if source config = destination config then
        (SystemExit ''Source and destination cannot be the same folder.'', fs, [])
      else if arg_watch a then
        watch_loop L config (max 1 (arg_interval a)) cycles fs
      else
        (case organize_pass L config fs of
           (Inl e, fs', out) \<Rightarrow> (Raised e, fs', out)
         | (Inr (moved, duplicates), fs', out) \<Rightarrow>
             (case print L (DONE moved duplicates (dry_run config)) out of
                Inl e \<Rightarrow> (Raised e, fs', out)
              | Inr out' \<Rightarrow> (Returned, fs', out'))))"

subsection \<open>Auxiliary notions for the properties\<close>

text \<open>Every directory on the way to \<open>d\<close>, and \<open>d\<close> itself, is there.\<close>

definition dirs_ready :: "filesystem \<Rightarrow> path \<Rightarrow> bool" where
  "dirs_ready fs d \<longleftrightarrow> (\<forall>q. q \<noteq> [] \<and> prefix q d \<longrightarrow> is_dir fs q)"

text \<open>The file a printed line is about, and the kind of the line.\<close>

fun line_file :: "line \<Rightarrow> path option" where
  "line_file (MOVED p t) = Some p"
| "line_file (DUPLICATE p t) = Some p"
| "line_file (ERROR p e) = Some p"
| "line_file _ = None"

fun is_MOVED :: "line \<Rightarrow> bool" where
  "is_MOVED (MOVED p t) = True"
| "is_MOVED _ = False"

fun is_DUPLICATE :: "line \<Rightarrow> bool" where
  "is_DUPLICATE (DUPLICATE p t) = True"
| "is_DUPLICATE _ = False"

fun is_ERROR :: "line \<Rightarrow> bool" where
  "is_ERROR (ERROR p e) = True"
| "is_ERROR _ = False"

subsection \<open>Conditions of the source-bucket rules\<close>

text \<open>
  The conditions of the first six tests of \<^verbatim>\<open>source_bucket\<close> (rules 1 to 4 of the
  ordered list), and of its tests for browsers, partial downloads and meetings.
\<close>

definition earlier_rule_applies :: "path \<Rightarrow> bool" where
  "earlier_rule_applies p =
    (let name = lower (name p);
         parent = lower (str_of_path (parent p))
     in contains name ''whatsapp'' \<or> contains parent ''whatsapp''
        \<or> contains name ''telegram'' \<or> contains parent ''telegram''
        \<or> contains name ''discord'' \<or> contains parent ''discord''
        \<or> contains name ''slack'' \<or> contains parent ''slack''
        \<or> startswith name ''screenshot'' \<or> contains name ''screen shot''
        \<or> startswith name ''snip''
        \<or> startswith name ''img_'' \<or> startswith name ''dsc_'' \<or> startswith name ''pxl_'')"

definition browser_name :: "path \<Rightarrow> bool" where
  "browser_name p =
    (let name = lower (name p)
     in contains name ''chrome'' \<or> contains name ''edge'' \<or> contains name ''firefox'')"

definition partial_download :: "path \<Rightarrow> bool" where
  "partial_download p \<longleftrightarrow> lower (suffix p) \<in> set [''.crdownload'', ''.part'']"

definition meeting_name :: "path \<Rightarrow> bool" where
  "meeting_name p =
    (let name = lower (name p)
     in contains name ''zoom'' \<or> contains name ''meeting'' \<or> contains name ''teams'')"

subsection \<open>A library instance for concrete runs\<close>

text \<open>The file names and paths that the text of a printed line contains.\<close>

fun line_strings :: "line \<Rightarrow> string list" where
  "line_strings (MOVED p t) = [str_of_path p, t]"
| "line_strings (DUPLICATE p t) = [str_of_path p, t]"
| "line_strings (ERROR p e) = [str_of_path p]"
| "line_strings (WATCHING p i) = [str_of_path p]"
| "line_strings _ = []"

text \<open>
  In the runs evaluated below the digest of a content is the content itself, the parser
  knows the texts of the empty object and of the empty array and raises
  \<^verbatim>\<open>json.JSONDecodeError\<close> for every other text, and every month is January 2024. The
  printer writes the text of the empty object for every index, so an index read back from
  disk is empty; no run below depends on the entries of an index that was read back.
  The byte \<^verbatim>\<open>0xFF\<close> occurs in no UTF-8 text: a content holding it does not decode, and a
  file name holding it (which Python represents by a lone surrogate) cannot be encoded by
  the standard output. Every other content and name in the runs below is ASCII.
\<close>

definition example_lib :: lib where
  "example_lib =
     \<lparr>sha256_hex = (\<lambda>c. c),
      utf8_decode = (\<lambda>c. if CHR 0xFF \<in> set c then None else Some c),
      json_loads = (\<lambda>s. if s = ''{}'' then Inr (JObj []) else if s = ''[]'' then Inr (JArr [])
                        else Inl JSONDecodeError),
      json_dumps = (\<lambda>v. ''{}''),
      strftime_ym = (\<lambda>t. Some ''2024-01''),
      now = 0,
      print_raises = (\<lambda>l. if list_ex (\<lambda>s. CHR 0xFF \<in> set s) (line_strings l)
                           then Some UnicodeEncodeError else None)\<rparr>"

definition example_config :: "bool \<Rightarrow> config" where
  "example_config dry =
     \<lparr>source = [''in''], destination = [''out''], dry_run = dry, recursive = True,
      keep_empty = False, sort_mode = ''source''\<rparr>"

text \<open>Three files, the second of which may not be read.\<close>

definition fs_unreadable :: filesystem where
  "fs_unreadable =
     [([''in''], Dir),
      ([''in'', ''a.txt''], File ''A'' 1 True),
      ([''in'', ''b.txt''], File ''B'' 2 False),
      ([''in'', ''c.txt''], File ''C'' 3 True)]"

text \<open>
  The same three files, but the name of the unreadable one holds the byte \<^verbatim>\<open>0xFF\<close>.
\<close>

definition fs_unprintable :: filesystem where
  "fs_unprintable =
     [([''in''], Dir),
      ([''in'', ''a.txt''], File ''A'' 1 True),
      ([''in'', ''b'' @ [CHR 0xFF] @ ''.txt''], File ''B'' 2 False),
      ([''in'', ''c.txt''], File ''C'' 3 True)]"

text \<open>
  A source with one file, and a destination whose index file holds the given bytes.
\<close>

definition fs_with_index :: "string \<Rightarrow> filesystem" where
  "fs_with_index bytes =
     [([''in''], Dir),
      ([''in'', ''a.txt''], File ''A'' 1 True),
      ([''out''], Dir),
      ([''out'', INDEX_FILENAME], File bytes 0 True)]"


text \<open>Two files of the same content, and an empty folder; there is no destination yet.\<close>

definition fs_identical :: filesystem where
  "fs_identical =
     [([''in''], Dir),
      ([''in'', ''a.txt''], File ''hello'' 1 True),
      ([''in'', ''b.txt''], File ''hello'' 2 True),
      ([''in'', ''old''], Dir)]"

text \<open>
  A destination that already holds a file \<^verbatim>\<open>r.txt\<close> and a duplicate of it under the
  same name, and a third file of that name and content in the source.
\<close>

definition fs_dup_taken :: filesystem where
  "fs_dup_taken =
     [([''in''], Dir),
      ([''in'', ''z''], Dir),
      ([''in'', ''z'', ''r.txt''], File ''same'' 3 True),
      ([''out''], Dir),
      ([''out'', ''documents''], Dir),
      ([''out'', ''documents'', ''manual_or_unknown''], Dir),
      ([''out'', ''documents'', ''manual_or_unknown'', ''r.txt''], File ''same'' 1 True),
      ([''out'', ''duplicates''], Dir),
      ([''out'', ''duplicates'', ''manual_or_unknown''], Dir),
      ([''out'', ''duplicates'', ''manual_or_unknown'', ''r.txt''], File ''same'' 2 True)]"

section \<open>Properties\<close>

subsection \<open>Auxiliary facts: the file system\<close>

lemma node_at_update:
  "k \<noteq> [] \<Longrightarrow> node_at (AList.update k v fs) q = (if q = k then Some v else node_at fs q)"
  by (simp add: node_at_def update_conv')

lemma node_at_delete:
  "k \<noteq> [] \<Longrightarrow> node_at (AList.delete k fs) q = (if q = k then None else node_at fs q)"
  by (simp add: node_at_def delete_conv')

lemma is_file_not_root: "is_file fs p \<Longrightarrow> p \<noteq> []"
  by (auto simp: is_file_def node_at_def)

lemma is_file_in_keys: "is_file fs p \<Longrightarrow> p \<in> set (map fst fs)"
  by (auto simp: is_file_def node_at_def split: if_splits option.splits node.splits
      dest!: map_of_SomeD intro: rev_image_eqI)

text \<open>mkdirs only adds directories where nothing was.\<close>

lemma mkdirs_node_at:
  "mkdirs fs cur ss = Inr fs1 \<Longrightarrow>
     node_at fs1 q = node_at fs q \<or> (node_at fs q = None \<and> node_at fs1 q = Some Dir)"
proof (induction ss arbitrary: fs cur)
  case Nil
  then show ?case by simp
next
  case (Cons s ss)
  show ?case
  proof (cases "node_at fs (cur @ [s])")
    case None
    with Cons.prems have m: "mkdirs (AList.update (cur @ [s]) Dir fs) (cur @ [s]) ss = Inr fs1"
      by simp
    from Cons.IH [OF m] None show ?thesis
      by (auto simp: node_at_update split: if_splits)
  next
    case (Some n)
    with Cons.prems obtain m: "mkdirs fs (cur @ [s]) ss = Inr fs1"
      by (cases n) (auto split: if_splits)
    from Cons.IH [OF m] show ?thesis .
  qed
qed

lemma mkdirs_is_file: "mkdirs fs cur ss = Inr fs1 \<Longrightarrow> is_file fs1 q = is_file fs q"
  using mkdirs_node_at [of fs cur ss fs1 q] by (auto simp: is_file_def)

lemma mkdirs_keeps_node: "mkdirs fs cur ss = Inr fs1 \<Longrightarrow> node_at fs q = Some n \<Longrightarrow> node_at fs1 q = Some n"
  using mkdirs_node_at [of fs cur ss fs1 q] by auto

lemma mkdirs_exists_mono: "mkdirs fs cur ss = Inr fs1 \<Longrightarrow> exists fs q \<Longrightarrow> exists fs1 q"
  using mkdirs_node_at [of fs cur ss fs1 q] by (auto simp: exists_def)

text \<open>What mkdirs creates lies on the way from cur to cur @ ss.\<close>

lemma mkdirs_new_on_path:
  "mkdirs fs cur ss = Inr fs1 \<Longrightarrow> node_at fs1 q \<noteq> node_at fs q \<Longrightarrow>
     strict_prefix cur q \<and> prefix q (cur @ ss)"
proof (induction ss arbitrary: fs cur)
  case Nil
  then show ?case by simp
next
  case (Cons s ss)
  show ?case
  proof (cases "node_at fs (cur @ [s])")
    case None
    with Cons.prems have m: "mkdirs (AList.update (cur @ [s]) Dir fs) (cur @ [s]) ss = Inr fs1"
      by simp
    show ?thesis
    proof (cases "q = cur @ [s]")
      case True
      then show ?thesis by (simp add: strict_prefix_def)
    next
      case False
      with Cons.prems(2) have "node_at fs1 q \<noteq> node_at (AList.update (cur @ [s]) Dir fs) q"
        by (simp add: node_at_update)
      from Cons.IH [OF m this] show ?thesis
        by (auto simp: strict_prefix_def prefix_def)
    qed
  next
    case (Some n)
    with Cons.prems obtain m: "mkdirs fs (cur @ [s]) ss = Inr fs1"
      by (cases n) (auto split: if_splits)
    from Cons.IH [OF m Cons.prems(2)] show ?thesis
      by (auto simp: strict_prefix_def prefix_def)
  qed
qed

text \<open>After mkdirs every directory on the way is there.\<close>

lemma mkdirs_is_dir:
  "mkdirs fs cur ss = Inr fs1 \<Longrightarrow> prefix q (cur @ ss) \<Longrightarrow> strict_prefix cur q \<Longrightarrow> is_dir fs1 q"
proof (induction ss arbitrary: fs cur)
  case Nil
  then show ?case by (auto simp: strict_prefix_def)
next
  case (Cons s ss)
  have step: "\<And>fsa. mkdirs fsa (cur @ [s]) ss = Inr fs1 \<Longrightarrow> is_dir fsa (cur @ [s]) \<Longrightarrow> is_dir fs1 q"
  proof -
    fix fsa assume m: "mkdirs fsa (cur @ [s]) ss = Inr fs1" and d: "is_dir fsa (cur @ [s])"
    show "is_dir fs1 q"
    proof (cases "q = cur @ [s]")
      case True
      with d mkdirs_keeps_node [OF m] show ?thesis by (auto simp: is_dir_def)
    next
      case False
      from Cons.prems(2,3) False have "strict_prefix (cur @ [s]) q"
        by (auto simp: strict_prefix_def prefix_def append_eq_append_conv2 Cons_eq_append_conv
            append_eq_Cons_conv)
      with Cons.IH [OF m] Cons.prems(2) show ?thesis by simp
    qed
  qed
  show ?case
  proof (cases "node_at fs (cur @ [s])")
    case None
    with Cons.prems have m: "mkdirs (AList.update (cur @ [s]) Dir fs) (cur @ [s]) ss = Inr fs1"
      by simp
    show ?thesis by (rule step [OF m]) (simp add: is_dir_def node_at_update)
  next
    case (Some n)
    with Cons.prems obtain m: "mkdirs fs (cur @ [s]) ss = Inr fs1" and n: "n = Dir"
      by (cases n) (auto split: if_splits)
    show ?thesis by (rule step [OF m]) (simp add: is_dir_def Some n)
  qed
qed

text \<open>mkdirs succeeds unless a regular file is in the way.\<close>

lemma mkdirs_succeeds:
  "(\<And>q. strict_prefix cur q \<Longrightarrow> prefix q (cur @ ss) \<Longrightarrow> \<not> is_file fs q) \<Longrightarrow> \<exists>fs1. mkdirs fs cur ss = Inr fs1"
proof (induction ss arbitrary: fs cur)
  case Nil
  then show ?case by simp
next
  case (Cons s ss)
  have nf: "\<not> is_file fs (cur @ [s])"
    by (rule Cons.prems) (auto simp: strict_prefix_def)
  show ?case
  proof (cases "node_at fs (cur @ [s])")
    case None
    have "\<exists>fs1. mkdirs (AList.update (cur @ [s]) Dir fs) (cur @ [s]) ss = Inr fs1"
    proof (rule Cons.IH)
      fix q assume a: "strict_prefix (cur @ [s]) q" "prefix q ((cur @ [s]) @ ss)"
      then have "\<not> is_file fs q"
        by (intro Cons.prems) (auto simp: strict_prefix_def prefix_def)
      moreover from a have "q \<noteq> cur @ [s]" by (auto simp: strict_prefix_def)
      ultimately show "\<not> is_file (AList.update (cur @ [s]) Dir fs) q"
        by (simp add: is_file_def node_at_update)
    qed
    with None show ?thesis by simp
  next
    case (Some n)
    with nf have n: "n = Dir" by (cases n) (auto simp: is_file_def)
    have "\<exists>fs1. mkdirs fs (cur @ [s]) ss = Inr fs1"
    proof (rule Cons.IH)
      fix q assume a: "strict_prefix (cur @ [s]) q" "prefix q ((cur @ [s]) @ ss)"
      then show "\<not> is_file fs q"
        by (intro Cons.prems) (auto simp: strict_prefix_def prefix_def)
    qed
    with Some n show ?thesis by simp
  qed
qed


subsection \<open>Auxiliary facts: collision-free names\<close>

lemma safe_name_loop_least:
  assumes "i \<le> n" "\<not> exists fs (numbered par st suf n)"
    and "\<forall>k. i \<le> k \<and> k < n \<longrightarrow> exists fs (numbered par st suf k)"
  shows "safe_name_loop fs par st suf i = numbered par st suf n"
  using assms
proof (induction "n - i" arbitrary: i)
  case 0
  then have "i = n" by simp
  with 0 show ?case by (simp add: safe_name_loop.simps [of _ _ _ _ n])
next
  case (Suc d)
  then have lt: "i < n" by simp
  with Suc.prems have ex: "exists fs (numbered par st suf i)" by simp
  have "safe_name_loop fs par st suf (i + 1) = numbered par st suf n"
    using Suc.hyps Suc.prems lt by (intro Suc.hyps(1)) auto
  with ex show ?case by (simp add: safe_name_loop.simps [of _ _ _ _ i])
qed

lemma ex_free_numbered: "\<exists>n\<ge>i. \<not> exists fs (numbered par st suf n)"
proof (rule ccontr)
  assume "\<not> ?thesis"
  then have "{j. i \<le> j} \<subseteq> {j. exists fs (numbered par st suf j)}" by auto
  then have "finite {j. i \<le> j}" using finite_numbered_exists by (rule finite_subset)
  moreover have "infinite {j. i \<le> j}"
    by (metis (mono_tags, lifting) finite_nat_set_iff_bounded_le mem_Collect_eq nat_le_linear not_less_eq_eq)
  ultimately show False by simp
qed

lemma safe_name_loop_Least:
  "safe_name_loop fs par st suf i =
     numbered par st suf (LEAST n. i \<le> n \<and> \<not> exists fs (numbered par st suf n))"
proof -
  let ?P = "\<lambda>n. i \<le> n \<and> \<not> exists fs (numbered par st suf n)"
  obtain m where m: "?P m" using ex_free_numbered [of i fs par st suf] by blast
  have l: "?P (Least ?P)" using m by (rule LeastI)
  have b: "\<forall>k. i \<le> k \<and> k < Least ?P \<longrightarrow> exists fs (numbered par st suf k)"
  proof (intro allI impI)
    fix k assume k: "i \<le> k \<and> k < Least ?P"
    then have "k < Least ?P" by simp
    then have "\<not> ?P k" by (rule not_less_Least)
    with k show "exists fs (numbered par st suf k)" by simp
  qed
  from l have l1: "i \<le> Least ?P" and l2: "\<not> exists fs (numbered par st suf (Least ?P))"
    by simp_all
  show ?thesis by (rule safe_name_loop_least [OF l1 l2 b])
qed

lemma safe_name_free: "\<not> exists fs (safe_name fs target)"
proof (cases "exists fs target")
  case False
  then show ?thesis by (simp add: safe_name_def)
next
  case True
  let ?P = "\<lambda>n. 1 \<le> n \<and> \<not> exists fs (numbered (parent target) (stem target) (suffix target) n)"
  from ex_free_numbered [of 1 fs] obtain m where "?P m" by blast
  then have "?P (Least ?P)" by (rule LeastI)
  with True show ?thesis by (simp add: safe_name_def safe_name_loop_Least)
qed

lemma rfind_dot_less: "rfind_dot n = Some i \<Longrightarrow> i < length n"
  by (induction n arbitrary: i) (auto split: option.splits if_splits)


lemma numbered_not_root: "numbered par st suf i \<noteq> []"
  by (simp add: numbered_def)

lemma safe_name_cases:
  "safe_name fs target = target
   \<or> (\<exists>n. safe_name fs target = numbered (parent target) (stem target) (suffix target) n)"
proof (cases "exists fs target")
  case False
  then show ?thesis by (simp add: safe_name_def)
next
  case True
  then have "safe_name fs target = safe_name_loop fs (parent target) (stem target) (suffix target) 1"
    by (simp add: safe_name_def)
  then show ?thesis
    by (subst (asm) safe_name_loop_Least) blast
qed



lemma safe_name_not_root: "target \<noteq> [] \<Longrightarrow> safe_name fs target \<noteq> []"
  using safe_name_cases [of fs target] by (auto simp: numbered_not_root)


subsection \<open>Auxiliary facts: moving a file\<close>

lemma path_split: "p \<noteq> [] \<Longrightarrow> p = parent p @ [name p]"
  by (simp add: parent_def name_def)



lemma mkdir_parents_ready: "mkdir_parents fs d = Inr fs1 \<Longrightarrow> dirs_ready fs1 d"
  unfolding dirs_ready_def mkdir_parents_def
  using mkdirs_is_dir [of fs "[]" d fs1] by (auto simp: strict_prefix_def)


lemma dirs_ready_is_dir: "dirs_ready fs d \<Longrightarrow> is_dir fs d"
  by (cases "d = []") (auto simp: dirs_ready_def is_dir_def node_at_def)

lemma mkdir_parents_new:
  "mkdir_parents fs d = Inr fs1 \<Longrightarrow> node_at fs1 q \<noteq> node_at fs q \<Longrightarrow> q \<noteq> [] \<and> prefix q d"
  unfolding mkdir_parents_def using mkdirs_new_on_path [of fs "[]" d fs1 q]
  by (auto simp: strict_prefix_def)

lemma not_prefix_parent: "p \<noteq> [] \<Longrightarrow> \<not> prefix p (parent p)"
  by (metis parent_def prefix_length_le length_butlast diff_less length_greater_0_conv
      less_numeral_extra(1) not_le)

lemma shutil_move_file:
  assumes "node_at fs src = Some (File c t r)" "\<not> exists fs dst" "is_dir fs (parent dst)"
  shows "shutil_move fs src dst = (Inr dst, AList.update dst (File c t r) (AList.delete src fs))"
  using assms by (simp add: shutil_move_def is_dir_def exists_def Let_def)

lemma move_file_file:
  assumes src: "node_at fs src = Some (File c t r)" and dst: "dst \<noteq> []"
  shows "move_file fs src dst dry =
    (if dry then (Inr (safe_name fs dst), fs)
     else (case mkdir_parents fs (parent (safe_name fs dst)) of
             Inl e \<Rightarrow> (Inl e, fs)
           | Inr fs1 \<Rightarrow>
               (Inr (safe_name fs dst),
                AList.update (safe_name fs dst) (File c t r) (AList.delete src fs1))))"
proof (cases "mkdir_parents fs (parent (safe_name fs dst))")
  case (Inl e)
  then show ?thesis by (simp add: move_file_def Let_def)
next
  case (Inr fs1)
  let ?F = "safe_name fs dst"
  have F: "?F \<noteq> []" using dst by (rule safe_name_not_root)
  have "node_at fs1 ?F = node_at fs ?F"
    using mkdir_parents_new [OF Inr, of ?F] not_prefix_parent [OF F] by blast
  then have free: "\<not> exists fs1 ?F" using safe_name_free [of fs dst] by (simp add: exists_def)
  have s: "node_at fs1 src = Some (File c t r)"
    using Inr src unfolding mkdir_parents_def by (rule mkdirs_keeps_node)
  have d: "is_dir fs1 (parent ?F)"
    using mkdir_parents_ready [OF Inr] by (rule dirs_ready_is_dir)
  show ?thesis
    using Inr shutil_move_file [OF s free d] by (simp add: move_file_def Let_def)
qed

lemma node_file_not_root: "node_at fs p = Some (File c t r) \<Longrightarrow> p \<noteq> []"
  by (auto simp: node_at_def)



lemma node_at_moved:
  assumes "src \<noteq> []" "F \<noteq> []"
  shows "node_at (AList.update F n (AList.delete src fs)) q =
           (if q = F then Some n else if q = src then None else node_at fs q)"
  using assms by (simp add: node_at_update node_at_delete)



subsection \<open>Auxiliary facts: the loop over the candidates\<close>

text \<open>
  One round. Its file system and index are those \<^verbatim>\<open>organize_file\<close> left. If no exception
  leaves the round, it has printed one line about the file, an error line unless
  \<^verbatim>\<open>organize_file\<close> returned; otherwise it has printed nothing.
\<close>

lemma handle_exception_step:
  assumes "handle_exception L p exc (fs, index, m, d, out) = (x, fs1, index1, m1, d1, out1)"
  shows "fs1 = fs \<and> index1 = index \<and> m1 = m \<and> d1 = d
       \<and> (case x of Some e \<Rightarrow> out1 = out | None \<Rightarrow> out1 = out @ [ERROR p exc])"
proof (cases "print_raises L (ERROR p exc)")
  case None
  from assms show ?thesis unfolding handle_exception_def print_def None by simp
next
  case (Some e)
  from assms show ?thesis unfolding handle_exception_def print_def Some by auto
qed

lemma organize_one_step:
  assumes "organize_one L config p (fs, index, m, d, out) = (x, fs1, index1, m1, d1, out1)"
  shows "\<exists>r. organize_file L p config fs index = (r, fs1, index1)
           \<and> (case x of
                 Some e \<Rightarrow> out1 = out
               | None \<Rightarrow> (\<exists>l. out1 = out @ [l] \<and> line_file l = Some p
                             \<and> (\<not> is_ERROR l \<longrightarrow> (\<exists>y. r = Inr y))))"
proof -
  obtain r fs' index' where o: "organize_file L p config fs index = (r, fs', index')"
    by (cases "organize_file L p config fs index") auto
  show ?thesis
  proof (cases r)
    case (Inl exc)
    with o assms
    have "handle_exception L p exc (fs', index', m, d, out) = (x, fs1, index1, m1, d1, out1)"
      by (simp add: organize_one_def)
    from handle_exception_step [OF this] o Inl show ?thesis
      by (cases x) auto
  next
    case (Inr st)
    obtain status target where st: "st = (status, target)" by (cases st) auto
    define l where "l = (if status = ''duplicate'' then DUPLICATE p target else MOVED p target)"
    define m' where "m' = (if status = ''duplicate'' then m else m + 1)"
    define d' where "d' = (if status = ''duplicate'' then d + 1 else d)"
    have l: "line_file l = Some p" "\<not> is_ERROR l" by (simp_all add: l_def)
    show ?thesis
    proof (cases "print_raises L l")
      case None
      with o Inr st assms have "x = None" "fs1 = fs'" "index1 = index'" "out1 = out @ [l]"
        by (auto simp: organize_one_def print_def l_def split: if_splits)
      with o Inr l show ?thesis by auto
    next
      case (Some exc)
      with o Inr st assms
      have "handle_exception L p exc (fs', index', m', d', out) = (x, fs1, index1, m1, d1, out1)"
        by (auto simp: organize_one_def print_def l_def m'_def d'_def split: if_splits)
      from handle_exception_step [OF this] o show ?thesis
        by (cases x) auto
    qed
  qed
qed

text \<open>
  When every line can be printed, a round never ends the loop: an exception of
  \<^verbatim>\<open>organize_file\<close> gives an error line and leaves the counters as they were, a result
  gives its line and adds one to its counter.
\<close>

lemma organize_one_when_printable:
  assumes "\<forall>l. print_raises L l = None"
  shows "organize_one L config p (fs, index, m, d, out) =
           (None,
            (case organize_file L p config fs index of
               (Inl exc, fs', index') \<Rightarrow> (fs', index', m, d, out @ [ERROR p exc])
             | (Inr (status, target), fs', index') \<Rightarrow>
                 if status = ''duplicate'' then (fs', index', m, d + 1, out @ [DUPLICATE p target])
                 else (fs', index', m + 1, d, out @ [MOVED p target])))"
  using assms
  by (auto simp: organize_one_def handle_exception_def print_def split: sum.splits prod.splits)

lemma organize_files_append:
  "organize_files L config (pre @ post) st =
     (case organize_files L config pre st of
        (Some e, st') \<Rightarrow> (Some e, st')
      | (None, st') \<Rightarrow> organize_files L config post st')"
  by (induction pre arbitrary: st) (auto split: prod.splits option.splits)

lemma organize_files_out:
  "organize_files L config files (fs, index, m, d, out) = (x, fs', index', m', d', out') \<Longrightarrow>
     prefix out out'"
proof (induction files arbitrary: fs index m d out)
  case Nil
  then show ?case by simp
next
  case (Cons p files)
  obtain y fs1 index1 m1 d1 out1 where
    one: "organize_one L config p (fs, index, m, d, out) = (y, fs1, index1, m1, d1, out1)"
    by (cases "organize_one L config p (fs, index, m, d, out)") auto
  from organize_one_step [OF one] have p1: "prefix out out1"
    by (cases y) auto
  show ?case
  proof (cases y)
    case None
    with Cons.prems one
    have "organize_files L config files (fs1, index1, m1, d1, out1)
            = (x, fs', index', m', d', out')" by simp
    from Cons.IH [OF this] p1 show ?thesis by (rule prefix_order.trans [rotated])
  next
    case (Some e)
    with Cons.prems one p1 show ?thesis by simp
  qed
qed

subsection \<open>Auxiliary facts: what organize_file does to the file system\<close>

lemma sha256sum_Inr:
  "sha256sum L fs p = Inr digest \<Longrightarrow>
     \<exists>c t. node_at fs p = Some (File c t True) \<and> digest = sha256_hex L c"
  by (auto simp: sha256sum_def split: option.splits node.splits if_splits)

lemma index_get_Inr:
  "index_get index k = Inr v \<Longrightarrow> \<exists>kvs. index = JObj kvs \<and> v = map_of kvs k"
  by (cases index) auto

lemma move_file_fs:
  assumes src: "node_at fs src = Some (File c t r0)" and dst: "dst \<noteq> []"
    and mv: "move_file fs src dst dry = (r, fs')"
  shows "(fs' = fs \<and> (dry \<and> r = Inr (safe_name fs dst) \<or> \<not> dry \<and> (\<exists>e. r = Inl e)))
       \<or> (\<not> dry \<and> r = Inr (safe_name fs dst)
           \<and> (\<exists>fs1. mkdir_parents fs (parent (safe_name fs dst)) = Inr fs1
                 \<and> fs' = AList.update (safe_name fs dst) (File c t r0) (AList.delete src fs1)))"
  using mv unfolding move_file_file [OF src dst]
  by (auto split: if_splits sum.splits)

text \<open>What a call of organize_file can do to the file system.\<close>

lemma organize_file_fs:
  assumes o: "organize_file L p config fs index = (r, fs', index')"
  shows "(fs' = fs \<and> (dry_run config \<or> (\<exists>e. r = Inl e)))
       \<or> (\<exists>c t fs1 cat b st.
             \<not> dry_run config \<and> node_at fs p = Some (File c t True)
           \<and> r = Inr (st, str_of_path (safe_name fs (destination config @ [cat, b, name p])))
           \<and> mkdir_parents fs (parent (safe_name fs (destination config @ [cat, b, name p])))
               = Inr fs1
           \<and> fs' = AList.update (safe_name fs (destination config @ [cat, b, name p]))
                      (File c t True) (AList.delete p fs1))"
proof (cases "if sort_mode config = ''source'' then Inr (source_bucket p) else month_bucket L fs p")
  case (Inl e)
  with o show ?thesis by (auto simp: organize_file_def Let_def)
next
  case b: (Inr bucket)
  show ?thesis
  proof (cases "sha256sum L fs p")
    case (Inl e)
    with o b show ?thesis by (auto simp: organize_file_def Let_def)
  next
    case d: (Inr digest)
    from sha256sum_Inr [OF d] obtain c t where f: "node_at fs p = Some (File c t True)"
      by blast
    show ?thesis
    proof (cases "index_get index digest")
      case (Inl e)
      with o b d show ?thesis by (auto simp: organize_file_def Let_def)
    next
      case g: (Inr known_path_str)
      show ?thesis
      proof (cases "known_path_of known_path_str")
        case (Inl e)
        with o b d g show ?thesis by (auto simp: organize_file_def Let_def)
      next
        case k: (Inr known_path)
        show ?thesis
        proof (cases "is_known_duplicate fs known_path p")
          case True
          let ?T = "destination config @ [''duplicates'', bucket, name p]"
          obtain r1 fs1 where m: "move_file fs p ?T (dry_run config) = (r1, fs1)"
            by (cases "move_file fs p ?T (dry_run config)") auto
          have T: "?T \<noteq> []" by simp
          from o b d g k True m have e: "fs' = fs1"
            "r = (case r1 of Inl e \<Rightarrow> Inl e | Inr fp \<Rightarrow> Inr (''duplicate'', str_of_path fp))"
            by (auto simp: organize_file_def Let_def split: sum.splits)
          from move_file_fs [OF f T m] consider
            (same) "fs1 = fs" "dry_run config \<or> (\<exists>e. r1 = Inl e)"
            | (moved) fsx where "\<not> dry_run config" "r1 = Inr (safe_name fs ?T)"
                "mkdir_parents fs (parent (safe_name fs ?T)) = Inr fsx"
                "fs1 = AList.update (safe_name fs ?T) (File c t True) (AList.delete p fsx)"
            by blast
          then show ?thesis
          proof cases
            case same
            with e show ?thesis by auto
          next
            case moved
            with e f show ?thesis
              by (intro disjI2 exI [of _ c] exI [of _ t] exI [of _ fsx]
                  exI [of _ "''duplicates''"] exI [of _ bucket] exI [of _ "''duplicate''"]) simp
          qed
        next
          case False
          let ?T = "destination config @ [classify_file p, bucket, name p]"
          obtain r1 fs1 where m: "move_file fs p ?T (dry_run config) = (r1, fs1)"
            by (cases "move_file fs p ?T (dry_run config)") auto
          have T: "?T \<noteq> []" by simp
          from index_get_Inr [OF g] obtain kvs where kv: "index = JObj kvs" by blast
          from o b d g k False m kv have e: "fs' = fs1"
            "r = (case r1 of Inl e \<Rightarrow> Inl e | Inr fp \<Rightarrow> Inr (''moved'', str_of_path fp))"
            by (auto simp: organize_file_def Let_def split: sum.splits)
          from move_file_fs [OF f T m] consider
            (same) "fs1 = fs" "dry_run config \<or> (\<exists>e. r1 = Inl e)"
            | (moved) fsx where "\<not> dry_run config" "r1 = Inr (safe_name fs ?T)"
                "mkdir_parents fs (parent (safe_name fs ?T)) = Inr fsx"
                "fs1 = AList.update (safe_name fs ?T) (File c t True) (AList.delete p fsx)"
            by blast
          then show ?thesis
          proof cases
            case same
            with e show ?thesis by auto
          next
            case moved
            with e f show ?thesis
              by (intro disjI2 exI [of _ c] exI [of _ t] exI [of _ fsx]
                  exI [of _ "classify_file p"] exI [of _ bucket] exI [of _ "''moved''"]) simp
          qed
        qed
      qed
    qed
  qed
qed

lemma safe_name_below: "strict_prefix d (safe_name fs (d @ [x, b, n]))"
proof -
  have p: "parent (d @ [x, b, n]) = d @ [x, b]" by (simp add: parent_def butlast_append)
  from safe_name_cases [of fs "d @ [x, b, n]"] show ?thesis
    unfolding p numbered_def by (auto simp: strict_prefix_def)
qed

lemma is_file_moved:
  assumes "src \<noteq> []" "F \<noteq> []" "is_file (AList.update F n (AList.delete src fs)) q"
  shows "q = F \<or> (q \<noteq> src \<and> is_file fs q)"
  using assms by (auto simp: is_file_def node_at_moved split: if_splits)

lemma mkdir_parents_is_file: "mkdir_parents fs d = Inr fs1 \<Longrightarrow> is_file fs1 q = is_file fs q"
  unfolding mkdir_parents_def by (rule mkdirs_is_file)

lemma organize_file_fs_cases:
  assumes o: "organize_file L p config fs index = (r, fs', index')"
  obtains (same) "fs' = fs" "dry_run config \<or> (\<exists>e. r = Inl e)"
  | (moved) c t fs1 cat b where
      "\<not> dry_run config" "node_at fs p = Some (File c t True)"
      "mkdir_parents fs (parent (safe_name fs (destination config @ [cat, b, name p]))) = Inr fs1"
      "fs' = AList.update (safe_name fs (destination config @ [cat, b, name p]))
               (File c t True) (AList.delete p fs1)"
  using organize_file_fs [OF o] by blast

lemma organize_file_new_files:
  assumes o: "organize_file L p config fs index = (r, fs', index')"
    and q: "is_file fs' q"
  shows "is_file fs q \<or> strict_prefix (destination config) q"
  using o
proof (cases rule: organize_file_fs_cases)
  case same
  with q show ?thesis by simp
next
  case (moved c t fs1 cat b)
  let ?F = "safe_name fs (destination config @ [cat, b, name p])"
  have F: "?F \<noteq> []" by (rule safe_name_not_root) simp
  have p: "p \<noteq> []" using moved(2) by (rule node_file_not_root)
  from is_file_moved [OF p F] q moved(4) have "q = ?F \<or> is_file fs1 q" by blast
  then show ?thesis
    using safe_name_below [of "destination config" fs cat b "name p"]
      mkdir_parents_is_file [OF moved(3)] by auto
qed

lemma organize_file_removes:
  assumes o: "organize_file L p config fs index = (Inr x, fs', index')"
    and real: "\<not> dry_run config" and out: "\<not> prefix (destination config) p"
  shows "\<not> is_file fs' p"
  using o
proof (cases rule: organize_file_fs_cases)
  case same
  with real show ?thesis by simp
next
  case (moved c t fs1 cat b)
  let ?F = "safe_name fs (destination config @ [cat, b, name p])"
  have F: "?F \<noteq> []" by (rule safe_name_not_root) simp
  have p: "p \<noteq> []" using moved(2) by (rule node_file_not_root)
  have "p \<noteq> ?F"
    using safe_name_below [of "destination config" fs cat b "name p"] out
    by (auto simp: strict_prefix_def)
  then show ?thesis
    unfolding moved(4) using p F by (simp add: is_file_def node_at_moved)
qed

text \<open>The loop adds regular files below the destination only.\<close>

lemma organize_files_new_files:
  "organize_files L config files (fs, index, m, d, out) = (x, fs', index', m', d', out') \<Longrightarrow>
   is_file fs' q \<Longrightarrow> is_file fs q \<or> strict_prefix (destination config) q"
proof (induction files arbitrary: fs index m d out)
  case Nil
  then show ?case by simp
next
  case (Cons p files)
  obtain y fs1 index1 m1 d1 out1 where
    one: "organize_one L config p (fs, index, m, d, out) = (y, fs1, index1, m1, d1, out1)"
    by (cases "organize_one L config p (fs, index, m, d, out)") auto
  from organize_one_step [OF one] obtain r where
    o: "organize_file L p config fs index = (r, fs1, index1)" by blast
  show ?case
  proof (cases y)
    case None
    with Cons.prems(1) one
    have "organize_files L config files (fs1, index1, m1, d1, out1)
            = (x, fs', index', m', d', out')" by simp
    from Cons.IH [OF this Cons.prems(2)]
    show ?thesis using organize_file_new_files [OF o] by blast
  next
    case (Some e)
    with Cons.prems(1) one have "fs' = fs1" by simp
    with Cons.prems(2) show ?thesis using organize_file_new_files [OF o] by blast
  qed
qed

text \<open>
  After a real loop that no exception left and that printed no error line, no candidate
  from outside the destination is where it was.
\<close>

lemma organize_files_removed:
  "organize_files L config files (fs, index, m, d, out) = (None, fs', index', m', d', out') \<Longrightarrow>
   \<forall>l \<in> set out'. \<not> is_ERROR l \<Longrightarrow> \<not> dry_run config \<Longrightarrow>
   p \<in> set files \<Longrightarrow> \<not> prefix (destination config) p \<Longrightarrow> \<not> is_file fs' p"
proof (induction files arbitrary: fs index m d out)
  case Nil
  then show ?case by simp
next
  case (Cons p0 files)
  obtain y fs1 index1 m1 d1 out1 where
    one: "organize_one L config p0 (fs, index, m, d, out) = (y, fs1, index1, m1, d1, out1)"
    by (cases "organize_one L config p0 (fs, index, m, d, out)") auto
  from Cons.prems(1) one have y: "y = None" by (cases y) auto
  with Cons.prems(1) one
  have rest: "organize_files L config files (fs1, index1, m1, d1, out1)
          = (None, fs', index', m', d', out')" by simp
  from organize_one_step [OF one] y obtain r l where
    o: "organize_file L p0 config fs index = (r, fs1, index1)" and
    l: "out1 = out @ [l]" and
    e: "\<not> is_ERROR l \<longrightarrow> (\<exists>y. r = Inr y)" by auto
  from organize_files_out [OF rest] l have "l \<in> set out'"
    by (auto simp: prefix_def)
  with Cons.prems(2) e obtain z where r: "r = Inr z" by auto
  show ?case
  proof (cases "p = p0")
    case True
    from o r have "\<not> is_file fs1 p0"
      using Cons.prems(3,5) True by (auto dest: organize_file_removes)
    moreover have "\<not> strict_prefix (destination config) p0"
      using Cons.prems(5) True by (auto simp: strict_prefix_def)
    ultimately show ?thesis
      using organize_files_new_files [OF rest, of p0] True by blast
  next
    case False
    with Cons.prems(4) have "p \<in> set files" by simp
    from Cons.IH [OF rest Cons.prems(2,3) this Cons.prems(5)] show ?thesis .
  qed
qed

text \<open>Pruning removes directories only.\<close>

lemma rmdir_or_skip_node:
  "node_at (rmdir_or_skip d fs) q = node_at fs q
   \<or> (node_at fs q = Some Dir \<and> node_at (rmdir_or_skip d fs) q = None)"
  by (auto simp: rmdir_or_skip_def rmdir_def node_at_delete
      split: option.splits node.splits if_splits)

lemma fold_rmdir_or_skip_node:
  "node_at (fold rmdir_or_skip ds fs) q = node_at fs q
   \<or> (node_at fs q = Some Dir \<and> node_at (fold rmdir_or_skip ds fs) q = None)"
proof (induction ds arbitrary: fs)
  case Nil
  then show ?case by simp
next
  case (Cons d ds)
  from Cons.IH [of "rmdir_or_skip d fs"] rmdir_or_skip_node [of d fs q]
  show ?case by auto
qed

lemma prune_node:
  "node_at (prune_empty_dirs fs root keep) q = node_at fs q
   \<or> (node_at fs q = Some Dir \<and> node_at (prune_empty_dirs fs root keep) q = None)"
  using fold_rmdir_or_skip_node by (simp add: prune_empty_dirs_def)

lemma prune_is_file: "is_file (prune_empty_dirs fs root keep) q = is_file fs q"
  using prune_node [of fs root keep q] by (auto simp: is_file_def)

lemma prune_keeps_file:
  "node_at fs q = Some (File c t r) \<Longrightarrow> node_at (prune_empty_dirs fs root keep) q = Some (File c t r)"
  using prune_node [of fs root keep q] by auto

text \<open>Writing the index.\<close>

lemma save_index_real:
  assumes "save_index L fs ip index False = Inr fs2" "ip \<noteq> []"
  shows "(\<exists>r. node_at fs2 ip = Some (File (json_dumps L index) (now L) r))
       \<and> (\<forall>q. q \<noteq> ip \<longrightarrow> node_at fs2 q = node_at fs q)"
  using assms
  by (auto simp: save_index_def write_text_def node_at_update
      split: option.splits node.splits if_splits)

subsection \<open>Auxiliary facts: the pass and the duplicate test\<close>

lemma organize_pass_Inr:
  assumes "organize_pass L config fs = (Inr (m, d), fs', out)"
  shows "\<exists>fs0 index fs1 index1 fs2.
           mkdir_parents fs (destination config) = Inr fs0
         \<and> load_index L fs0 (destination config @ [INDEX_FILENAME]) = Inr index
         \<and> organize_files L config
             (list_candidate_files fs0 (source config) (destination config) (recursive config))
             (fs0, index, 0, 0, []) = (None, fs1, index1, m, d, out)
         \<and> save_index L fs1 (destination config @ [INDEX_FILENAME]) index1 (dry_run config)
             = Inr fs2
         \<and> fs' = prune_empty_dirs fs2 (source config) (keep_empty config)"
  using assms
  by (auto simp: organize_pass_def Let_def split: sum.splits prod.splits option.splits)

lemma candidate_facts:
  assumes "q \<in> set (list_candidate_files fs src dest rec)"
  shows "is_file fs q" "\<not> prefix dest q" "name q \<noteq> INDEX_FILENAME"
    "\<not> (\<exists>part \<in> set (parts q). lower part \<in> set IGNORED_DIRS)"
    "if rec then strict_prefix src q else q \<noteq> [] \<and> parent q = src"
  using assms
  by (auto simp: list_candidate_files_def glob_star_def should_ignore_def resolve_def
      split: if_splits)

lemma candidateI:
  assumes "is_file fs q" "\<not> prefix dest q" "name q \<noteq> INDEX_FILENAME"
    "\<not> (\<exists>part \<in> set (parts q). lower part \<in> set IGNORED_DIRS)"
    "if rec then strict_prefix src q else q \<noteq> [] \<and> parent q = src"
  shows "q \<in> set (list_candidate_files fs src dest rec)"
  using assms is_file_in_keys [OF assms(1)]
  by (auto simp: list_candidate_files_def glob_star_def should_ignore_def resolve_def
      split: if_splits)

lemma load_index_of_written:
  assumes lib: "\<forall>v. utf8_decode L (json_dumps L v) \<noteq> None"
    and parses: "\<forall>v s e. utf8_decode L (json_dumps L v) = Some s \<and> json_loads L s = Inl e
                   \<longrightarrow> caught_by_load_index e"
    and n: "node_at fs ip = Some (File (json_dumps L index1) t r)"
  shows "\<exists>index2. load_index L fs ip = Inr index2"
proof -
  from lib obtain s where s: "utf8_decode L (json_dumps L index1) = Some s" by auto
  show ?thesis
  proof (cases "json_loads L s")
    case (Inl e)
    with parses s have "caught_by_load_index e" by blast
    with n s Inl show ?thesis
      by (simp add: load_index_def read_text_def exists_def caught_by_load_index_def)
  next
    case (Inr v)
    with n s show ?thesis
      by (simp add: load_index_def read_text_def exists_def caught_by_load_index_def)
  qed
qed

lemma known_path_of_Some:
  "known_path_of v = Inr (Some kp) \<longleftrightarrow> (\<exists>s. v = Some (JStr s) \<and> s \<noteq> [] \<and> kp = Path s)"
  by (cases v; cases "the v")
     (auto simp: known_path_of_def split: option.splits json.splits if_splits)

lemma is_known_duplicate_iff:
  assumes "known_path_of v = Inr known"
  shows "is_known_duplicate fs known p \<longleftrightarrow>
           (\<exists>s. v = Some (JStr s) \<and> s \<noteq> [] \<and> exists fs (Path s)
                \<and> resolve (Path s) \<noteq> resolve p)"
proof (cases known)
  case None
  with assms have "\<not> (\<exists>s. v = Some (JStr s) \<and> s \<noteq> [])"
    by (auto simp: known_path_of_def split: option.splits json.splits if_splits)
  with None show ?thesis by (auto simp: is_known_duplicate_def)
next
  case (Some kp)
  with assms known_path_of_Some [of v kp] show ?thesis
    by (auto simp: is_known_duplicate_def)
qed

subsection \<open>Source buckets\<close>

text \<open>
  C4 (as amended). With sort mode \<^verbatim>\<open>source\<close> and none of rules 1 to 4 applying, the
  bucket is \<^verbatim>\<open>browser_downloads\<close> exactly when the file name contains \<^verbatim>\<open>chrome\<close>,
  \<^verbatim>\<open>edge\<close> or \<^verbatim>\<open>firefox\<close>; and when neither that rule nor the rule for partial
  downloads applies, the bucket is \<^verbatim>\<open>meetings\<close> exactly when the file name contains
  \<^verbatim>\<open>zoom\<close>, \<^verbatim>\<open>meeting\<close> or \<^verbatim>\<open>teams\<close>. Both rules read the file name only.
\<close>

theorem source_bucket_browser_meetings_by_name:
  assumes "\<not> earlier_rule_applies p"
  shows "(source_bucket p = ''browser_downloads'' \<longleftrightarrow> browser_name p)
       \<and> (\<not> browser_name p \<and> \<not> partial_download p \<longrightarrow>
            (source_bucket p = ''meetings'' \<longleftrightarrow> meeting_name p))"
  using assms
  by (simp add: source_bucket_def earlier_rule_applies_def browser_name_def
      partial_download_def meeting_name_def Let_def)

theorem source_bucket_browser_meetings_by_name_witness:
  "source_bucket [''home'', ''u'', ''chrome'', ''Firefox Setup.exe''] = ''browser_downloads''
   \<and> source_bucket [''home'', ''u'', ''zoom'', ''Teams_notes.txt''] = ''meetings''"
proof -
  have a: "\<not> earlier_rule_applies [''home'', ''u'', ''chrome'', ''Firefox Setup.exe'']"
    by code_simp
  have b: "browser_name [''home'', ''u'', ''chrome'', ''Firefox Setup.exe'']"
    by code_simp
  have c: "\<not> earlier_rule_applies [''home'', ''u'', ''zoom'', ''Teams_notes.txt'']"
    by code_simp
  have d: "\<not> browser_name [''home'', ''u'', ''zoom'', ''Teams_notes.txt'']
           \<and> \<not> partial_download [''home'', ''u'', ''zoom'', ''Teams_notes.txt'']
           \<and> meeting_name [''home'', ''u'', ''zoom'', ''Teams_notes.txt'']"
    by code_simp
  show ?thesis
    using source_bucket_browser_meetings_by_name [OF a] b
      source_bucket_browser_meetings_by_name [OF c] d
    by simp
qed

text \<open>
  C4 as stated fails: a file whose parent path contains \<^verbatim>\<open>chrome\<close> (or \<^verbatim>\<open>zoom\<close>) and
  whose name matches no rule gets the bucket \<^verbatim>\<open>manual_or_unknown\<close>.
\<close>

theorem source_bucket_parent_only_counterexample:
  "\<not> earlier_rule_applies [''home'', ''u'', ''chrome'', ''report.pdf'']
   \<and> contains (lower (str_of_path (parent [''home'', ''u'', ''chrome'', ''report.pdf''])))
        ''chrome''
   \<and> source_bucket [''home'', ''u'', ''chrome'', ''report.pdf''] = ''manual_or_unknown''
   \<and> \<not> earlier_rule_applies [''home'', ''u'', ''zoom'', ''notes.txt'']
   \<and> contains (lower (str_of_path (parent [''home'', ''u'', ''zoom'', ''notes.txt''])))
        ''zoom''
   \<and> source_bucket [''home'', ''u'', ''zoom'', ''notes.txt''] = ''manual_or_unknown''"
  by code_simp

subsection \<open>Loading the index\<close>

text \<open>
  What \<^verbatim>\<open>load_index\<close> does in each case: the empty index when the file is missing and
  when reading or parsing raises an exception that its handler catches; the exception when
  its handler does not catch it.
\<close>

lemma load_index_empty:
  assumes "\<not> exists fs index_path
           \<or> (\<exists>e. read_text L fs index_path = Inl e \<and> caught_by_load_index e)
           \<or> (\<exists>txt e. read_text L fs index_path = Inr txt \<and> json_loads L txt = Inl e
                  \<and> caught_by_load_index e)"
  shows "load_index L fs index_path = Inr (JObj [])"
  using assms by (auto simp: load_index_def)

lemma load_index_raises:
  assumes "exists fs index_path"
    and "read_text L fs index_path = Inl e
         \<or> (\<exists>txt. read_text L fs index_path = Inr txt \<and> json_loads L txt = Inl e)"
    and "\<not> caught_by_load_index e"
  shows "load_index L fs index_path = Inl e"
  using assms by (auto simp: load_index_def)

lemma organize_pass_load_index_raises:
  assumes "mkdir_parents fs (destination config) = Inr fs0"
    and "load_index L fs0 (destination config @ [INDEX_FILENAME]) = Inl e"
  shows "organize_pass L config fs = (Inl e, fs0, [])"
  using assms by (simp add: organize_pass_def)

text \<open>
  C8 fails on the code. The handler of \<^verbatim>\<open>load_index\<close> catches \<^verbatim>\<open>json.JSONDecodeError\<close>
  and \<^verbatim>\<open>OSError\<close>. An index file whose bytes are not UTF-8 makes \<^verbatim>\<open>read_text\<close> raise
  \<^verbatim>\<open>UnicodeDecodeError\<close>, which is neither: \<^verbatim>\<open>load_index\<close> raises it, and the pass ends
  with it before a candidate is processed. An index file whose text is not JSON gives the
  empty index, and the pass goes on.
\<close>

theorem load_index_raises_on_undecodable_bytes:
  "load_index example_lib (fs_with_index [CHR 0xFF, CHR 0xFE]) [''out'', INDEX_FILENAME]
     = Inl UnicodeDecodeError
   \<and> organize_pass example_lib (example_config False) (fs_with_index [CHR 0xFF, CHR 0xFE])
     = (Inl UnicodeDecodeError, fs_with_index [CHR 0xFF, CHR 0xFE], [])
   \<and> load_index example_lib (fs_with_index ''not json'') [''out'', INDEX_FILENAME]
     = Inr (JObj [])
   \<and> fst (organize_pass example_lib (example_config False) (fs_with_index ''not json''))
     = Inr (1, 0)"
  by code_simp

text \<open>
  C10. When the text of the index file parses as a JSON value that is not an object,
  \<^verbatim>\<open>load_index\<close> returns that value as it is, not the empty index.
\<close>

theorem load_index_returns_non_object:
  assumes "read_text L fs index_path = Inr txt"
    and "json_loads L txt = Inr v"
    and "\<forall>kvs. v \<noteq> JObj kvs"
  shows "load_index L fs index_path = Inr v \<and> load_index L fs index_path \<noteq> Inr (JObj [])"
  using assms by (auto simp: load_index_def exists_def read_text_def split: option.splits)

theorem load_index_returns_non_object_witness:
  "load_index example_lib
     [([''dst''], Dir), ([''dst'', INDEX_FILENAME], File ''[]'' 0 True)]
     [''dst'', INDEX_FILENAME] = Inr (JArr [])"
proof -
  have a: "read_text example_lib
             [([''dst''], Dir), ([''dst'', INDEX_FILENAME], File ''[]'' 0 True)]
             [''dst'', INDEX_FILENAME] = Inr ''[]''"
    by (simp add: read_text_def node_at_def INDEX_FILENAME_def example_lib_def)
  have b: "json_loads example_lib ''[]'' = Inr (JArr [])"
    by (simp add: example_lib_def)
  have c: "\<forall>kvs. JArr [] \<noteq> JObj kvs"
    by simp
  show ?thesis
    using load_index_returns_non_object [OF a b c] by simp
qed

subsection \<open>Entry point\<close>

text \<open>
  C9. When the resolved source does not exist, is not a directory, or equals the resolved
  destination, \<^verbatim>\<open>main\<close> exits with the message for that case; the file system is
  as it was and nothing has been printed, so no pass has started.
\<close>

theorem main_rejects_bad_source:
  assumes "\<not> exists fs (resolve (arg_source a)) \<or> \<not> is_dir fs (resolve (arg_source a))
           \<or> resolve (arg_source a) = resolve (arg_destination a)"
  shows "main L a cycles fs =
           (SystemExit
              (if \<not> exists fs (resolve (arg_source a)) \<or> \<not> is_dir fs (resolve (arg_source a))
               then ''Source folder does not exist or is not a directory: ''
                      @ str_of_path (resolve (arg_source a))
               else ''Source and destination cannot be the same folder.''),
            fs, [])"
  using assms by (auto simp: main_def config_of_args_def Let_def)

theorem main_rejects_bad_source_witness:
  "main example_lib
     \<lparr>arg_source = [''src''], arg_destination = [''dst''], arg_watch = False,
      arg_interval = 15, arg_dry_run = False, arg_non_recursive = False,
      arg_keep_empty = False, arg_sort_mode = ''date''\<rparr> 0 [([''dst''], Dir)]
   = (SystemExit ''Source folder does not exist or is not a directory: /src'',
      [([''dst''], Dir)], [])
   \<and> main example_lib
     \<lparr>arg_source = [''src''], arg_destination = [''src''], arg_watch = False,
      arg_interval = 15, arg_dry_run = False, arg_non_recursive = False,
      arg_keep_empty = False, arg_sort_mode = ''date''\<rparr> 0 [([''src''], Dir)]
   = (SystemExit ''Source and destination cannot be the same folder.'',
      [([''src''], Dir)], [])"
  using
    main_rejects_bad_source [of "[([''dst''], Dir)]"
      "\<lparr>arg_source = [''src''], arg_destination = [''dst''], arg_watch = False,
        arg_interval = 15, arg_dry_run = False, arg_non_recursive = False,
        arg_keep_empty = False, arg_sort_mode = ''date''\<rparr>" example_lib 0]
    main_rejects_bad_source [of "[([''src''], Dir)]"
      "\<lparr>arg_source = [''src''], arg_destination = [''src''], arg_watch = False,
        arg_interval = 15, arg_dry_run = False, arg_non_recursive = False,
        arg_keep_empty = False, arg_sort_mode = ''date''\<rparr>" example_lib 0]
  by (simp add: exists_def is_dir_def node_at_def resolve_def str_of_path_def)

subsection \<open>Collision safety\<close>



subsection \<open>Per-file errors\<close>

text \<open>
  C7 fails on the code. The handler of the loop catches the exception of \<^verbatim>\<open>organize_file\<close>
  and prints the error line, and nothing catches an exception of that \<^verbatim>\<open>print\<close>. For a
  file that cannot be read and whose name the standard output cannot encode, hashing raises
  \<^verbatim>\<open>PermissionError\<close> and printing the error line raises \<^verbatim>\<open>UnicodeEncodeError\<close>: the
  exception leaves the loop and the pass, the candidate after the file is not processed, no
  counts are returned and the index is not saved. When the name can be printed, the same
  three files give an error line for the second, the third is moved and the counts are
  those of the two files moved.
\<close>

theorem organize_pass_aborts_when_error_line_unprintable:
  "sha256sum example_lib fs_unprintable [''in'', ''b'' @ [CHR 0xFF] @ ''.txt'']
     = Inl PermissionError
   \<and> fst (organize_pass example_lib (example_config False) fs_unprintable)
     = Inl UnicodeEncodeError
   \<and> snd (snd (organize_pass example_lib (example_config False) fs_unprintable))
     = [MOVED [''in'', ''a.txt''] ''/out/documents/manual_or_unknown/a.txt'']
   \<and> is_file (fst (snd (organize_pass example_lib (example_config False) fs_unprintable)))
        [''in'', ''c.txt'']
   \<and> \<not> exists (fst (snd (organize_pass example_lib (example_config False) fs_unprintable)))
          [''out'', INDEX_FILENAME]
   \<and> fst (organize_pass example_lib (example_config False) fs_unreadable) = Inr (2, 0)
   \<and> snd (snd (organize_pass example_lib (example_config False) fs_unreadable))
     = [MOVED [''in'', ''a.txt''] ''/out/documents/manual_or_unknown/a.txt'',
        ERROR [''in'', ''b.txt''] PermissionError,
        MOVED [''in'', ''c.txt''] ''/out/documents/manual_or_unknown/c.txt'']"
  by code_simp

subsection \<open>Deduplicator\<close>

text \<open>
  C1 (as amended). Let the candidate be a readable regular file, the index a JSON object
  whose entry for the file's digest is missing, falsy or a string, and the bucket computable.
  If the entry is a non-empty string whose path exists and differs from the candidate's, the
  result is \<^verbatim>\<open>duplicate\<close>, the final path is \<^verbatim>\<open>destination/duplicates/bucket/filename\<close>
  after collision resolution, and the index is unchanged. In every other case the result is
  \<^verbatim>\<open>moved\<close>, the final path is \<^verbatim>\<open>destination/category/bucket/filename\<close> after
  collision resolution, and the index maps the digest to the final path. The final path was
  free. In real mode, when its folder can be made, the file is at the final path afterwards
  and no longer at its old one; in a dry run the file system is unchanged.
\<close>

theorem organize_file_outcome:
  fixes L :: lib and config :: config and fs fs1 :: filesystem and p :: path
    and kvs :: "(string \<times> json) list"
  defines "target \<equiv> \<lambda>dup bucket.
             destination config @ [if dup then ''duplicates'' else classify_file p, bucket, name p]"
  assumes node: "node_at fs p = Some (File c t True)"
    and bucket: "(if sort_mode config = ''source'' then Inr (source_bucket p)
                  else month_bucket L fs p) = Inr bucket"
    and entry: "known_path_of (map_of kvs (sha256_hex L c)) = Inr known"
    and dup: "dup = (\<exists>s. map_of kvs (sha256_hex L c) = Some (JStr s) \<and> s \<noteq> []
                        \<and> exists fs (Path s) \<and> resolve (Path s) \<noteq> resolve p)"
    and final: "final = safe_name fs (target dup bucket)"
    and dirs: "dry_run config \<or> mkdir_parents fs (parent final) = Inr fs1"
    and fs': "fs' = (if dry_run config then fs
                    else AList.update final (File c t True) (AList.delete p fs1))"
  shows "organize_file L p config fs (JObj kvs)
           = (Inr (if dup then ''duplicate'' else ''moved'', str_of_path final),
              fs',
              (if dup then JObj kvs
               else JObj (AList.update (sha256_hex L c) (JStr (str_of_path final)) kvs)))
         \<and> \<not> exists fs final
         \<and> (\<not> dry_run config \<longrightarrow>
               node_at fs' final = Some (File c t True) \<and> node_at fs' p = None)"
proof -
  have d: "sha256sum L fs p = Inr (sha256_hex L c)"
    using node by (simp add: sha256sum_def)
  have k: "is_known_duplicate fs known p = dup"
    unfolding dup using entry by (rule is_known_duplicate_iff)
  have T: "target dup bucket \<noteq> []" by (simp add: target_def)
  have F: "final \<noteq> []" unfolding final using T by (rule safe_name_not_root)
  have free: "\<not> exists fs final" unfolding final by (rule safe_name_free)
  have P: "p \<noteq> []" using node by (rule node_file_not_root)
  have ne: "p \<noteq> final" using free node by (auto simp: exists_def)
  have mv: "move_file fs p (target dup bucket) (dry_run config) = (Inr final, fs')"
    using dirs unfolding move_file_file [OF node T] fs' final by auto
  have res: "organize_file L p config fs (JObj kvs)
           = (Inr (if dup then ''duplicate'' else ''moved'', str_of_path final),
              fs',
              (if dup then JObj kvs
               else JObj (AList.update (sha256_hex L c) (JStr (str_of_path final)) kvs)))"
  proof (cases dup)
    case True
    with mv have "move_file fs p (destination config @ [''duplicates'', bucket, name p])
                    (dry_run config) = (Inr final, fs')"
      by (simp add: target_def)
    with True bucket d entry k show ?thesis
      by (simp add: organize_file_def Let_def)
  next
    case False
    with mv have "move_file fs p (destination config @ [classify_file p, bucket, name p])
                    (dry_run config) = (Inr final, fs')"
      by (simp add: target_def)
    with False bucket d entry k show ?thesis
      by (simp add: organize_file_def Let_def)
  qed
  have "node_at fs' final = Some (File c t True) \<and> node_at fs' p = None"
    if "\<not> dry_run config"
    using that ne P F unfolding fs' by (simp add: node_at_moved)
  with res free show ?thesis by blast
qed

theorem organize_file_outcome_witness:
  "organize_file example_lib [''in'', ''a.txt''] (example_config False) fs_identical (JObj [])
     = (Inr (''moved'', ''/out/documents/manual_or_unknown/a.txt''),
        [([''in''], Dir), ([''in'', ''b.txt''], File ''hello'' 2 True),
         ([''in'', ''old''], Dir), ([''out''], Dir),
         ([''out'', ''documents''], Dir),
         ([''out'', ''documents'', ''manual_or_unknown''], Dir),
         ([''out'', ''documents'', ''manual_or_unknown'', ''a.txt''], File ''hello'' 1 True)],
        JObj [(''hello'', JStr ''/out/documents/manual_or_unknown/a.txt'')])"
proof -
  let ?p = "[''in'', ''a.txt'']"
  let ?final = "[''out'', ''documents'', ''manual_or_unknown'', ''a.txt'']"
  let ?fs1 = "[([''in''], Dir), ([''in'', ''a.txt''], File ''hello'' 1 True),
      ([''in'', ''b.txt''], File ''hello'' 2 True),
      ([''in'', ''old''], Dir), ([''out''], Dir),
      ([''out'', ''documents''], Dir),
      ([''out'', ''documents'', ''manual_or_unknown''], Dir)]"
  let ?fs' = "[([''in''], Dir), ([''in'', ''b.txt''], File ''hello'' 2 True),
         ([''in'', ''old''], Dir), ([''out''], Dir),
         ([''out'', ''documents''], Dir),
         ([''out'', ''documents'', ''manual_or_unknown''], Dir),
         ([''out'', ''documents'', ''manual_or_unknown'', ''a.txt''], File ''hello'' 1 True)]"
  have node: "node_at fs_identical ?p = Some (File ''hello'' 1 True)"
    by code_simp
  have bucket: "(if sort_mode (example_config False) = ''source'' then Inr (source_bucket ?p)
                 else month_bucket example_lib fs_identical ?p) = Inr ''manual_or_unknown''"
    by code_simp
  have entry: "known_path_of (map_of [] (sha256_hex example_lib ''hello'')) = Inr None"
    by (simp add: known_path_of_def)
  have dup: "False = (\<exists>s. map_of [] (sha256_hex example_lib ''hello'') = Some (JStr s)
                 \<and> s \<noteq> [] \<and> exists fs_identical (Path s) \<and> resolve (Path s) \<noteq> resolve ?p)"
    by simp
  have final: "?final = safe_name fs_identical
                 (destination (example_config False)
                    @ [if False then ''duplicates'' else classify_file ?p,
                       ''manual_or_unknown'', name ?p])"
    by code_simp
  have dirs: "dry_run (example_config False)
              \<or> mkdir_parents fs_identical (parent ?final) = Inr ?fs1"
    by code_simp
  have fs': "?fs' = (if dry_run (example_config False) then fs_identical
                     else AList.update ?final (File ''hello'' 1 True) (AList.delete ?p ?fs1))"
    by code_simp
  have str: "str_of_path ?final = ''/out/documents/manual_or_unknown/a.txt''"
    by code_simp
  have key: "sha256_hex example_lib ''hello'' = ''hello''"
    by (simp add: example_lib_def)
  from organize_file_outcome [OF node bucket entry dup final dirs fs']
  show ?thesis by (simp add: str key)
qed

text \<open>
  C1 as stated fails for a duplicate whose name is taken in the duplicates folder: it is
  moved to the numbered name, and the file that was there stays.
\<close>

theorem duplicate_target_collides_counterexample:
  "fst (organize_file example_lib [''in'', ''z'', ''r.txt''] (example_config False) fs_dup_taken
          (JObj [(''same'', JStr ''/out/documents/manual_or_unknown/r.txt'')]))
     = Inr (''duplicate'', ''/out/duplicates/manual_or_unknown/r (1).txt'')
   \<and> str_of_path (destination (example_config False)
                     @ [''duplicates'', source_bucket [''in'', ''z'', ''r.txt''],
                        name [''in'', ''z'', ''r.txt'']])
       = ''/out/duplicates/manual_or_unknown/r.txt''
   \<and> node_at (fst (snd (organize_file example_lib [''in'', ''z'', ''r.txt'']
                         (example_config False) fs_dup_taken
                         (JObj [(''same'', JStr ''/out/documents/manual_or_unknown/r.txt'')]))))
        [''out'', ''duplicates'', ''manual_or_unknown'', ''r.txt'']
       = Some (File ''same'' 2 True)
   \<and> node_at (fst (snd (organize_file example_lib [''in'', ''z'', ''r.txt'']
                         (example_config False) fs_dup_taken
                         (JObj [(''same'', JStr ''/out/documents/manual_or_unknown/r.txt'')]))))
        [''out'', ''duplicates'', ''manual_or_unknown'', ''r (1).txt'']
       = Some (File ''same'' 3 True)"
  by code_simp

subsection \<open>Idempotence\<close>

text \<open>
  C5. If a real pass returned its counts and printed no error line, then a second pass on
  the file system it left returns the counts 0 and 0 and prints nothing. The printer's
  output is assumed to decode as UTF-8 and to make the parser raise nothing that
  \<^verbatim>\<open>load_index\<close> does not catch, as Python's does.
\<close>

theorem second_pass_finds_nothing:
  assumes lib: "\<forall>v. utf8_decode L (json_dumps L v) \<noteq> None"
    and parses: "\<forall>v s e. utf8_decode L (json_dumps L v) = Some s \<and> json_loads L s = Inl e
                   \<longrightarrow> caught_by_load_index e"
    and real: "\<not> dry_run config"
    and first: "organize_pass L config fs = (Inr (m, d), fs', out)"
    and ok: "\<forall>l \<in> set out. \<not> is_ERROR l"
  shows "\<exists>fs''. organize_pass L config fs' = (Inr (0, 0), fs'', [])"
proof -
  let ?dest = "destination config"
  let ?ip = "?dest @ [INDEX_FILENAME]"
  let ?src = "source config"
  let ?rec = "recursive config"
  from organize_pass_Inr [OF first] real obtain fs0 index fs1 index1 fs2 where
    mk: "mkdir_parents fs ?dest = Inr fs0" and
    loop: "organize_files L config (list_candidate_files fs0 ?src ?dest ?rec)
             (fs0, index, 0, 0, []) = (None, fs1, index1, m, d, out)" and
    sv: "save_index L fs1 ?ip index1 False = Inr fs2" and
    fs': "fs' = prune_empty_dirs fs2 ?src (keep_empty config)"
    by auto
  have ip: "?ip \<noteq> []" by simp
  from save_index_real [OF sv ip] obtain r0 where
    w: "node_at fs2 ?ip = Some (File (json_dumps L index1) (now L) r0)" and
    w': "\<And>q. q \<noteq> ?ip \<Longrightarrow> node_at fs2 q = node_at fs1 q" by blast
  \<comment> \<open>the regular files after the first pass\<close>
  have A: "q = ?ip \<or> is_file fs1 q" if "is_file fs' q" for q
  proof (cases "q = ?ip")
    case True
    then show ?thesis by simp
  next
    case False
    from that have "is_file fs2 q" unfolding fs' prune_is_file .
    with w' [OF False] show ?thesis by (simp add: is_file_def)
  qed
  have B: "is_file fs0 q \<or> strict_prefix ?dest q" if "is_file fs1 q" for q
    using loop that by (rule organize_files_new_files)
  have C: "\<not> is_file fs1 q" if "q \<in> set (list_candidate_files fs0 ?src ?dest ?rec)" for q
    using loop ok real that candidate_facts(2) [OF that] by (rule organize_files_removed)
  have D: "dirs_ready fs0 ?dest" using mk by (rule mkdir_parents_ready)
  \<comment> \<open>the destination is still there or can be made again\<close>
  have "\<exists>fsm. mkdirs fs' [] ?dest = Inr fsm"
  proof (rule mkdirs_succeeds)
    fix q assume q: "strict_prefix [] q" "prefix q ([] @ ?dest)"
    show "\<not> is_file fs' q"
    proof
      assume "is_file fs' q"
      from A [OF this] show False
      proof
        assume "q = ?ip"
        with q(2) show False by (auto dest: prefix_length_le)
      next
        assume "is_file fs1 q"
        from B [OF this] show False
        proof
          assume f: "is_file fs0 q"
          from D q have "is_dir fs0 q" by (auto simp: dirs_ready_def)
          with f show False by (auto simp: is_dir_def is_file_def)
        next
          assume "strict_prefix ?dest q"
          with q(2) show False by (auto simp: strict_prefix_def)
        qed
      qed
    qed
  qed
  then obtain fsm where mk2: "mkdir_parents fs' ?dest = Inr fsm"
    by (auto simp: mkdir_parents_def)
  have fm: "is_file fsm q = is_file fs' q" for q
    using mk2 by (rule mkdir_parents_is_file)
  have "node_at fs' ?ip = Some (File (json_dumps L index1) (now L) r0)"
    unfolding fs' using w by (rule prune_keeps_file)
  with mk2 have wm: "node_at fsm ?ip = Some (File (json_dumps L index1) (now L) r0)"
    unfolding mkdir_parents_def by (rule mkdirs_keeps_node)
  from load_index_of_written [OF lib parses wm] obtain index2 where
    ld2: "load_index L fsm ?ip = Inr index2" by blast
  \<comment> \<open>no candidate is left\<close>
  have none: "list_candidate_files fsm ?src ?dest ?rec = []"
  proof (rule ccontr)
    assume "list_candidate_files fsm ?src ?dest ?rec \<noteq> []"
    then obtain q where q: "q \<in> set (list_candidate_files fsm ?src ?dest ?rec)"
      by (cases "list_candidate_files fsm ?src ?dest ?rec") auto
    note c = candidate_facts [OF q]
    from c(1) have "is_file fs' q" by (simp add: fm)
    from A [OF this] c(2) have f1: "is_file fs1 q" by auto
    from B [OF f1] c(2) have "is_file fs0 q" by (auto simp: strict_prefix_def)
    then have "q \<in> set (list_candidate_files fs0 ?src ?dest ?rec)"
      using c(2-5) by (rule candidateI)
    from C [OF this] f1 show False by simp
  qed
  have sv2: "\<exists>fs3. save_index L fsm ?ip index2 False = Inr fs3"
    using wm by (simp add: save_index_def write_text_def)
  then obtain fs3 where sv3: "save_index L fsm ?ip index2 False = Inr fs3" by blast
  have "organize_pass L config fs'
          = (Inr (0, 0), prune_empty_dirs fs3 ?src (keep_empty config), [])"
    using mk2 ld2 none sv3 real by (simp add: organize_pass_def Let_def)
  then show ?thesis by blast
qed

theorem second_pass_finds_nothing_witness:
  "fst (organize_pass example_lib (example_config False) fs_identical) = Inr (1, 1)
   \<and> (\<exists>fs''. organize_pass example_lib (example_config False)
               (fst (snd (organize_pass example_lib (example_config False) fs_identical)))
             = (Inr (0, 0), fs'', []))"
proof -
  have lib: "\<forall>v. utf8_decode example_lib (json_dumps example_lib v) \<noteq> None"
    by (simp add: example_lib_def)
  have parses: "\<forall>v s e. utf8_decode example_lib (json_dumps example_lib v) = Some s
                  \<and> json_loads example_lib s = Inl e \<longrightarrow> caught_by_load_index e"
    by (auto simp: example_lib_def)
  have real: "\<not> dry_run (example_config False)"
    by (simp add: example_config_def)
  have r: "fst (organize_pass example_lib (example_config False) fs_identical) = Inr (1, 1)"
    by code_simp
  then have first: "organize_pass example_lib (example_config False) fs_identical
      = (Inr (1, 1),
         fst (snd (organize_pass example_lib (example_config False) fs_identical)),
         snd (snd (organize_pass example_lib (example_config False) fs_identical)))"
    by (metis prod.collapse)
  have ok: "\<forall>l \<in> set (snd (snd (organize_pass example_lib (example_config False) fs_identical))).
              \<not> is_ERROR l"
    by code_simp
  from second_pass_finds_nothing [OF lib parses real first ok] r show ?thesis by blast
qed

subsection \<open>Dry runs\<close>

text \<open>
  C2 fails on the code. With two files of the same content in the source and no index, the
  dry run reports two moved files and no duplicate, the real run one of each: the dry run
  records the first file's target in the index, but the target was not created, so the
  existence test for the second file fails.
\<close>

theorem dry_run_counts_differ_from_real:
  "organize_pass example_lib (example_config True) fs_identical
     = (Inr (2, 0),
        [([''in''], Dir), ([''in'', ''a.txt''], File ''hello'' 1 True),
         ([''in'', ''b.txt''], File ''hello'' 2 True), ([''out''], Dir)],
        [MOVED [''in'', ''a.txt''] ''/out/documents/manual_or_unknown/a.txt'',
         MOVED [''in'', ''b.txt''] ''/out/documents/manual_or_unknown/b.txt''])
   \<and> fst (organize_pass example_lib (example_config False) fs_identical) = Inr (1, 1)
   \<and> snd (snd (organize_pass example_lib (example_config False) fs_identical))
       = [MOVED [''in'', ''a.txt''] ''/out/documents/manual_or_unknown/a.txt'',
          DUPLICATE [''in'', ''b.txt''] ''/out/duplicates/manual_or_unknown/b.txt'']"
  by code_simp

text \<open>
  C3 fails on the code. A dry run creates the destination folder and removes the empty
  folders of the source: \<^verbatim>\<open>organize_pass\<close> makes the destination and prunes the source
  whatever \<^verbatim>\<open>dry_run\<close> is.
\<close>

theorem dry_run_changes_file_system:
  "\<not> exists fs_identical [''out'']
   \<and> is_dir fs_identical [''in'', ''old'']
   \<and> dry_run (example_config True)
   \<and> is_dir (fst (snd (organize_pass example_lib (example_config True) fs_identical))) [''out'']
   \<and> \<not> exists (fst (snd (organize_pass example_lib (example_config True) fs_identical)))
          [''in'', ''old'']"
  by code_simp

end
